theory Spec2Isabelle
  imports Main
begin

section \<open>Go primitives used by the HLS dumper\<close>

text \<open>
  The Go type \<open>int\<close> (64 bits), \<open>int64\<close> and \<open>time.Duration\<close> are modelled as
  \<open>int\<close> with the two's complement wrap-around written out by \<open>wrap64\<close> at every
  addition and multiplication of the source. Strings are byte lists. Calls of
  \<open>log.Println\<close> change no state and are left out.
\<close>

definition wrap64 :: "int \<Rightarrow> int" where
  "wrap64 x = (x + 2 ^ 63) mod 2 ^ 64 - 2 ^ 63"

definition in_int64 :: "int \<Rightarrow> bool" where
  "in_int64 x = (- (2 ^ 63) \<le> x \<and> x < 2 ^ 63)"

text \<open>Go's integer division truncates towards zero.\<close>

definition go_quot :: "int \<Rightarrow> int \<Rightarrow> int" where
  "go_quot a b = sgn a * sgn b * (\<bar>a\<bar> div \<bar>b\<bar>)"

abbreviation NL :: char where
  "NL \<equiv> CHR 0x0A"

abbreviation Second :: int where
  "Second \<equiv> 1000000000"

abbreviation Millisecond :: int where
  "Millisecond \<equiv> 1000000"

subsection \<open>Errors\<close>

text \<open>
  An \<open>error\<close> value of the program is one of the causes below; \<open>FatalError e c\<close> is
  the struct \<open>fatalError{error: e, client: c}\<close> of util.go. \<open>IOError\<close> stands for an
  error reported by the operating system or the network, \<open>NumError\<close> for the
  \<open>*strconv.NumError\<close> of a number that does not parse.
\<close>

datatype error =
    EOF
  | NotM3U string
  | NumError string
  | OffsetFirstSegment
  | MissingTargetDuration
  | InvalidTag string string error
  | SequenceDecreased int int
  | HttpStatus int
  | InvalidAttributeList
  | MixedPlaylist
  | NoStreamsFound
  | IOError string
  | FatalError error bool

definition fatal :: "error option \<Rightarrow> error option" where
  "fatal err = (case err of None \<Rightarrow> None | Some e \<Rightarrow> Some (FatalError e False))"

text \<open>The type assertion \<open>err.(fatalError)\<close> and the field \<open>client\<close> it gives access to.\<close>

fun is_fatalError :: "error \<Rightarrow> bool" where
  "is_fatalError (FatalError e c) = True"
| "is_fatalError e = False"

fun client :: "error \<Rightarrow> bool" where
  "client (FatalError e c) = c"
| "client e = False"

definition errMissingTargetDuration :: error where
  "errMissingTargetDuration = FatalError MissingTargetDuration False"

definition errOffsetFirstSegment :: error where
  "errOffsetFirstSegment = OffsetFirstSegment"

definition errInvalidAttributeList :: error where
  "errInvalidAttributeList = InvalidAttributeList"

definition errMixedPlaylist :: error where
  "errMixedPlaylist = MixedPlaylist"

definition errNoStreamsFound :: error where
  "errNoStreamsFound = NoStreamsFound"

definition httpResponseStatusError :: "int \<Rightarrow> error" where
  "httpResponseStatusError status =
     (if status \<ge> 400 \<and> status < 500 \<and> status \<noteq> 429
      then FatalError (HttpStatus status) False
      else HttpStatus status)"

definition eofIfNil :: "error option \<Rightarrow> error" where
  "eofIfNil err = (case err of None \<Rightarrow> EOF | Some e \<Rightarrow> e)"

subsection \<open>Numbers and strings\<close>

definition is_digit :: "char \<Rightarrow> bool" where
  "is_digit c = (c \<in> set ''0123456789'')"

fun digits_val :: "int \<Rightarrow> string \<Rightarrow> int" where
  "digits_val acc [] = acc"
| "digits_val acc (c # cs) = digits_val (acc * 10 + (of_char c - 48)) cs"

text \<open>
  \<open>strconv.ParseInt(s, 10, 64)\<close>: an optional sign, then one decimal digit or more, and
  the value must fit 64 bits. The value returned beside an error is never read by the
  callers, so only the error is modelled.
\<close>

definition ParseInt :: "string \<Rightarrow> error + int" where
  "ParseInt s =
     (let neg = (s \<noteq> [] \<and> hd s = CHR ''-'');
          ds = (if s \<noteq> [] \<and> (hd s = CHR ''-'' \<or> hd s = CHR ''+'') then tl s else s)
      in if ds = [] \<or> \<not> list_all is_digit ds then Inl (NumError s)
         else let n = digits_val 0 ds; v = (if neg then - n else n)
              in if in_int64 v then Inr v else Inl (NumError s))"

definition Atoi :: "string \<Rightarrow> error + int" where
  "Atoi s = ParseInt s"

text \<open>\<open>fmt.Sprintf("%d", i)\<close>.\<close>

function digits :: "int \<Rightarrow> string" where
  "digits n = (if n < 10 then [char_of (48 + n)] else digits (n div 10) @ [char_of (48 + n mod 10)])"
  by pat_completeness auto
termination
  by (relation "measure nat") auto

declare digits.simps [simp del]

definition itoa :: "int \<Rightarrow> string" where
  "itoa i = (if i < 0 then CHR ''-'' # digits (- i) else digits i)"

definition splitPair :: "string \<Rightarrow> char \<Rightarrow> string \<times> string" where
  "splitPair s c =
     (let i = length (takeWhile (\<lambda>x. x \<noteq> c) s)
      in if i < length s \<and> i > 0 then (take i s, drop (i + 1) s) else (s, []))"

definition contains :: "string list \<Rightarrow> string \<Rightarrow> bool" where
  "contains s b = (b \<in> set s)"

definition HasPrefix :: "string \<Rightarrow> string \<Rightarrow> bool" where
  "HasPrefix s p = (take (length p) s = p)"

definition tagPrefix :: string where
  "tagPrefix = ''#EXT''"

definition tagSeparator :: char where
  "tagSeparator = CHR '':''"

definition segmentTags :: "string list" where
  "segmentTags =
     [''EXTINF'', ''EXT-X-BYTERANGE'', ''EXT-X-DISCONTINUITY'', ''EXT-X-KEY'', ''EXT-X-MAP'',
      ''EXT-X-PROGRAM-DATE-TIME'', ''EXT-X-DATERANGE'', ''EXT-X-GAP'', ''EXT-X-BITRATE'',
      ''EXT-X-ENDLIST'']"

definition mediaTags :: "string list" where
  "mediaTags =
     [''EXT-X-TARGETDURATION'', ''EXT-X-MEDIA-SEQUENCE'', ''EXT-X-DISCONTINUITY-SEQUENCE'',
      ''EXT-X-PLAYLIST-TYPE'', ''EXT-X-I-FRAMES-ONLY'']"

subsection \<open>The line scanner\<close>

text \<open>
  A \<open>bufio.Scanner\<close> over a response body: the line returned by \<open>Text()\<close>, the lines not
  yet scanned, the error the reader stops with after them (\<open>None\<close> is a clean end of
  input), and the value of \<open>Err()\<close>. \<open>Scan()\<close> takes the next line; at the end it
  returns false, clears the token and publishes the reader's error.
\<close>

datatype scanner = Scanner (Text: string) (pending: "string list")
  (fail: "error option") (Err: "error option")

fun Scan :: "scanner \<Rightarrow> bool \<times> scanner" where
  "Scan (Scanner t [] f e) = (False, Scanner [] [] f f)"
| "Scan (Scanner t (l # ls) f e) = (True, Scanner l ls f e)"

definition NewScanner :: "string list \<Rightarrow> error option \<Rightarrow> scanner" where
  "NewScanner ls f = Scanner [] ls f None"

subsection \<open>Files and the buffered manifest writer\<close>

text \<open>
  An open file: its name, its bytes, the position of the next write, and the number of
  bytes the device still takes for it (\<open>None\<close>: no limit); a write of more bytes stores
  those that fit and fails.
\<close>

record osfile =
  f_name :: string
  f_data :: string
  f_pos :: nat
  f_room :: "nat option"

definition write_at :: "nat \<Rightarrow> string \<Rightarrow> string \<Rightarrow> string" where
  "write_at pos old bytes =
     take pos old @ replicate (pos - length old) (CHR 0x00) @ bytes @ drop (pos + length bytes) old"

definition file_write :: "osfile \<Rightarrow> string \<Rightarrow> osfile" where
  "file_write f bytes =
     f\<lparr>f_data := write_at (f_pos f) (f_data f) bytes, f_pos := f_pos f + length bytes\<rparr>"

text \<open>
  \<open>bufio.Writer\<close>: the bytes buffered and the sticky error. The buffer is taken as
  large enough for what one operation writes, so bytes reach the file at \<open>Flush\<close>.
\<close>

record writer =
  w_buf :: string
  w_err :: "error option"

definition NewWriter :: writer where
  "NewWriter = \<lparr>w_buf = [], w_err = None\<rparr>"

definition WriteString :: "writer \<Rightarrow> string \<Rightarrow> error option \<times> writer" where
  "WriteString w str =
     (case w_err w of
        Some e \<Rightarrow> (Some e, w)
      | None \<Rightarrow> (None, w\<lparr>w_buf := w_buf w @ str\<rparr>))"

definition writeLine :: "writer \<Rightarrow> string \<Rightarrow> error option \<times> writer" where
  "writeLine w line =
     (if line = [] then (None, w)
      else (case WriteString w line of
              (Some e, w') \<Rightarrow> (Some e, w')
            | (None, w') \<Rightarrow> WriteString w' [NL]))"

text \<open>\<open>writeLine\<close> on a \<open>strings.Builder\<close>, whose writes never fail.\<close>

definition writeLine_Builder :: "string \<Rightarrow> string \<Rightarrow> string" where
  "writeLine_Builder b line = (if line = [] then b else b @ line @ [NL])"


text \<open>
  \<open>Flush\<close> hands the buffer to \<open>Write\<close> of the file. When the file takes only the first
  \<open>n\<close> bytes, these are written, the others stay in the buffer and the error becomes the
  sticky error of the writer; a nil file takes nothing.
\<close>

definition Flush :: "writer \<Rightarrow> osfile option \<Rightarrow> error option \<times> writer \<times> osfile option" where
  "Flush w fo =
     (case w_err w of
        Some e \<Rightarrow> (Some e, w, fo)
      | None \<Rightarrow>
          if w_buf w = [] then (None, w, fo)
          else (case fo of
                  None \<Rightarrow> (Some (IOError ''invalid argument''),
                            w\<lparr>w_err := Some (IOError ''invalid argument'')\<rparr>, fo)
                | Some f \<Rightarrow>
                    (case f_room f of
                       None \<Rightarrow> (None, w\<lparr>w_buf := []\<rparr>, Some (file_write f (w_buf w)))
                     | Some n \<Rightarrow>
                         if length (w_buf w) \<le> n
                         then (None, w\<lparr>w_buf := []\<rparr>,
                               Some ((file_write f (w_buf w))\<lparr>f_room := Some (n - length (w_buf w))\<rparr>))
                         else (Some (IOError ''no space left on device''),
                               w\<lparr>w_buf := drop n (w_buf w),
                                 w_err := Some (IOError ''no space left on device'')\<rparr>,
                               Some ((file_write f (take n (w_buf w)))\<lparr>f_room := Some 0\<rparr>)))))"

section \<open>The state of one rendition\<close>

record dumper =
  URL :: string
  Name :: string
  SingleFile :: bool
  Verbose :: bool
  Groups :: "string list"
  Titles :: "string list"
  PlaylistTimeout :: int
  SegmentTimeout :: int
  stop :: bool

record playlist =
  p_timeout :: int
  p_url :: string
  p_file :: "osfile option"
  p_writer :: "writer option"
  p_version :: int
  p_sequence :: int
  p_targetDuration :: int
  p_lastDuration :: int
  p_active :: bool
  p_err :: "error option"

record segment =
  seg_sequence :: int
  seg_duration :: int
  seg_uri :: string
  seg_length :: int
  seg_offset :: int
  seg_comments :: string

text \<open>
  The channel \<open>queue.c\<close> is the list of the segments sent on it, oldest first, and
  \<open>o_files\<close> holds the segment files written and closed in the working directory,
  each name with its bytes.
\<close>

record queue =
  q_c :: "segment list"
  q_sequence :: int

record output_state =
  o_timeout :: int
  o_file :: "osfile option"
  o_offset :: int
  o_sequence :: int
  o_queue :: queue
  o_files :: "(string \<times> string) list"

record stream =
  d :: dumper
  name :: string
  playlist :: playlist
  outp :: output_state

text \<open>
  A nil \<open>*bufio.Writer\<close> panics when it is written to; the panic is the error value
  \<open>IOError ''panic''\<close> wrapped as fatal, which ends every caller as the unwinding does.
\<close>

definition panic :: error where
  "panic = FatalError (IOError ''panic: nil pointer dereference'') False"

definition pl_WriteString :: "playlist \<Rightarrow> string \<Rightarrow> error option \<times> playlist" where
  "pl_WriteString p str =
     (case p_writer p of
        None \<Rightarrow> (Some panic, p)
      | Some w \<Rightarrow> (case WriteString w str of (err, w') \<Rightarrow> (err, p\<lparr>p_writer := Some w'\<rparr>)))"

definition pl_writeLine :: "playlist \<Rightarrow> string \<Rightarrow> error option \<times> playlist" where
  "pl_writeLine p line =
     (case p_writer p of
        None \<Rightarrow> (Some panic, p)
      | Some w \<Rightarrow> (case writeLine w line of (err, w') \<Rightarrow> (err, p\<lparr>p_writer := Some w'\<rparr>)))"

text \<open>\<open>func (p *playlist) flush(erro *error)\<close>: the error is stored only over nil.\<close>

definition flush :: "playlist \<Rightarrow> error option \<Rightarrow> error option \<times> playlist" where
  "flush p erro =
     (case p_writer p of
        None \<Rightarrow> (Some panic, p)
      | Some w \<Rightarrow>
          (case Flush w (p_file p) of
             (err, w', fo) \<Rightarrow>
               ((if erro = None then fatal err else erro),
                p\<lparr>p_writer := Some w', p_file := fo\<rparr>)))"

section \<open>Parsing a media playlist (playlist.go)\<close>

record hdr =
  h_version :: int
  h_sequence :: int
  h_targetDuration :: int

datatype 'a ctl = Continue 'a | Break 'a | Return error 'a

text \<open>The switch over the tag name in \<open>parseHeader\<close>, with the error check after it.\<close>

definition headerTag :: "bool \<Rightarrow> string \<Rightarrow> hdr \<times> stream \<Rightarrow> (string \<times> hdr \<times> stream) ctl" where
  "headerTag initial line hs =
     (case hs of (h, s) \<Rightarrow>
      case splitPair (tl line) tagSeparator of (k, v) \<Rightarrow>
        if k = ''EXT-X-VERSION'' then
          (case Atoi v of
             Inl e \<Rightarrow> Return (FatalError (InvalidTag k v e) False) (line, h, s)
           | Inr n \<Rightarrow>
               Continue ((if SingleFile (d s) \<and> n < 4 then ''#EXT-X-VERSION:4'' else line),
                         h\<lparr>h_version := n\<rparr>, s))
        else if k = ''EXT-X-TARGETDURATION'' then
          (case Atoi v of
             Inl e \<Rightarrow> Return (FatalError (InvalidTag k v e) False) (line, h, s)
           | Inr n \<Rightarrow> Continue (line, h\<lparr>h_targetDuration := wrap64 (n * Second)\<rparr>, s))
        else if k = ''EXT-X-MEDIA-SEQUENCE'' then
          (case Atoi v of
             Inl e \<Rightarrow> Return (FatalError (InvalidTag k v e) False) (line, h, s)
           | Inr n \<Rightarrow> Continue (line, h\<lparr>h_sequence := n\<rparr>, s))
        else if k = ''EXT-X-PLAYLIST-TYPE'' then
          Continue (line, h,
            if \<not> initial \<and> v = ''VOD'' then s\<lparr>playlist := (playlist s)\<lparr>p_active := False\<rparr>\<rparr> else s)
        else if k \<in> set segmentTags then Break (line, h, s)
        else Continue (line, h, s))"

text \<open>The body of the loop of \<open>parseHeader\<close> for one scanned line.\<close>

definition headerLine :: "bool \<Rightarrow> string \<Rightarrow> hdr \<times> stream \<Rightarrow> (hdr \<times> stream) ctl" where
  "headerLine initial line hs =
     (if line = [] then Continue hs
      else if hd line \<noteq> CHR ''#'' then Break hs
      else
        case (if HasPrefix line tagPrefix then headerTag initial line hs
              else Continue (line, hs)) of
          Return e (line', hs') \<Rightarrow> Return e hs'
        | Break (line', hs') \<Rightarrow> Break hs'
        | Continue (line', h', s') \<Rightarrow>
            if initial then
              (case pl_writeLine (playlist s') line' of
                 (Some e, p') \<Rightarrow> Return (FatalError e False) (h', s'\<lparr>playlist := p'\<rparr>)
               | (None, p') \<Rightarrow> Continue (h', s'\<lparr>playlist := p'\<rparr>))
            else Continue (h', s'))"

function headerLoop :: "bool \<Rightarrow> hdr \<times> stream \<Rightarrow> scanner \<Rightarrow> error option \<times> (hdr \<times> stream) \<times> scanner" where
  "headerLoop initial hs (Scanner t [] f e) = (None, hs, Scanner [] [] f f)"
| "headerLoop initial hs (Scanner t (l # ls) f e) =
     (case headerLine initial l hs of
        Continue hs' \<Rightarrow> headerLoop initial hs' (Scanner l ls f e)
      | Break hs' \<Rightarrow> (None, hs', Scanner l ls f e)
      | Return er hs' \<Rightarrow> (Some er, hs', Scanner l ls f e))"
  by pat_completeness auto
termination
  by (relation "measure (\<lambda>(initial, hs, sc). length (pending sc))") auto

text \<open>The part of \<open>parseHeader\<close> after its loop: version, target duration, media sequence.\<close>

definition headerFinish :: "hdr \<Rightarrow> stream \<Rightarrow> error option \<times> stream" where
  "headerFinish h s =
     (let p1 = (if p_version (playlist s) \<noteq> h_version h
                then (playlist s)\<lparr>p_version := h_version h\<rparr> else playlist s)
      in if p_targetDuration p1 = 0 \<and> \<not> h_targetDuration h > 0
         then (Some errMissingTargetDuration, s\<lparr>playlist := p1\<rparr>)
         else
           let p2 = (if p_targetDuration p1 = 0 then p1\<lparr>p_targetDuration := h_targetDuration h\<rparr>
                     else if p_targetDuration p1 \<noteq> h_targetDuration h \<and> h_targetDuration h > 0
                     then p1\<lparr>p_targetDuration := h_targetDuration h\<rparr>
                     else p1)
           in if h_sequence h > p_sequence p2
              then (None, s\<lparr>playlist := p2\<lparr>p_sequence := h_sequence h\<rparr>\<rparr>)
              else if h_sequence h \<noteq> p_sequence p2
              then (Some (FatalError (SequenceDecreased (p_sequence p2) (h_sequence h)) False),
                    s\<lparr>playlist := p2\<rparr>)
              else (None, s\<lparr>playlist := p2\<rparr>))"

text \<open>The local variables \<open>version\<close>, \<open>sequence\<close> and \<open>targetDuration\<close> before the loop.\<close>

definition hdrInit :: hdr where
  "hdrInit = \<lparr>h_version = 1, h_sequence = 0, h_targetDuration = 0\<rparr>"

text \<open>\<open>parseHeader\<close> from the creation of the writer on; the deferred flush is applied by
  \<open>parseHeader\<close> below.\<close>

definition headerBody :: "bool \<Rightarrow> stream \<Rightarrow> scanner \<Rightarrow> error option \<times> stream \<times> scanner" where
  "headerBody initial s sc =
     (case (if initial then pl_writeLine (playlist s) ''#EXTM3U'' else (None, playlist s)) of
        (Some e, p') \<Rightarrow> (Some (FatalError e False), s\<lparr>playlist := p'\<rparr>, sc)
      | (None, p') \<Rightarrow>
          (case headerLoop initial (hdrInit, s\<lparr>playlist := p'\<rparr>) sc of
             (Some e, (h, s1), sc1) \<Rightarrow> (Some e, s1, sc1)
           | (None, (h, s1), sc1) \<Rightarrow>
               (case Err sc1 of
                  Some e \<Rightarrow> (Some e, s1, sc1)
                | None \<Rightarrow> (case headerFinish h s1 of (err, s2) \<Rightarrow> (err, s2, sc1)))))"

definition parseHeader :: "stream \<Rightarrow> scanner \<Rightarrow> error option \<times> stream \<times> scanner" where
  "parseHeader s sc =
     (case Scan sc of
        (False, sc1) \<Rightarrow> (Some (eofIfNil (Err sc1)), s, sc1)
      | (True, sc1) \<Rightarrow>
          if Text sc1 \<noteq> ''#EXTM3U'' then (Some (NotM3U (Text sc1)), s, sc1)
          else
            let initial = (p_writer (playlist s) = None) in
            if initial then
              (case headerBody initial (s\<lparr>playlist := (playlist s)\<lparr>p_writer := Some NewWriter\<rparr>\<rparr>) sc1 of
                 (err, s2, sc2) \<Rightarrow>
                   (case flush (playlist s2) err of
                      (err', p') \<Rightarrow> (err', s2\<lparr>playlist := p'\<rparr>, sc2)))
            else headerBody initial s sc1)"

record seglocals =
  l_sequence :: int
  l_newSegments :: nat
  l_length :: int
  l_offset :: int
  l_duration :: int
  l_title :: string
  l_comments :: string

text \<open>The switch over the tag name in \<open>parseSegments\<close>, with the error check after it.\<close>

definition segmentTag :: "string \<Rightarrow> seglocals \<times> stream \<Rightarrow> error option \<times> string \<times> seglocals \<times> stream" where
  "segmentTag line ls =
     (case ls of (loc, s) \<Rightarrow>
      case splitPair (tl line) tagSeparator of (k, v) \<Rightarrow>
        if k = ''EXTINF'' then
          (case splitPair v (CHR '','') of (v1, title) \<Rightarrow>
           case splitPair v1 (CHR ''.'') of (v2, frac) \<Rightarrow>
             (case Atoi v2 of
                Inl e \<Rightarrow> (Some (FatalError (InvalidTag k v2 e) False), line, loc\<lparr>l_title := title\<rparr>, s)
              | Inr n \<Rightarrow> (None, line, loc\<lparr>l_title := title, l_duration := n\<rparr>, s)))
        else if k = ''EXT-X-BYTERANGE'' then
          (case splitPair v (CHR ''@'') of (lstr, ostr) \<Rightarrow>
             (case ParseInt lstr of
                Inl e \<Rightarrow> (Some (FatalError (InvalidTag k v e) False), line, loc, s)
              | Inr len \<Rightarrow>
                  if ostr \<noteq> [] then
                    (case ParseInt ostr of
                       Inl e \<Rightarrow> (Some (FatalError (InvalidTag k v e) False), line,
                                  loc\<lparr>l_length := len\<rparr>, s)
                     | Inr off \<Rightarrow> (None, [], loc\<lparr>l_length := len, l_offset := off\<rparr>, s))
                  else if l_offset loc = - 1 then
                    (Some (FatalError (InvalidTag k v errOffsetFirstSegment) False), [],
                     loc\<lparr>l_length := len\<rparr>, s)
                  else (None, [], loc\<lparr>l_length := len\<rparr>, s)))
        else if k = ''EXT-X-GAP'' then (None, line, loc\<lparr>l_length := 0\<rparr>, s)
        else if k = ''EXT-X-ENDLIST'' then
          (None, line, loc, s\<lparr>playlist := (playlist s)\<lparr>p_active := False\<rparr>\<rparr>)
        else (None, line, loc, s))"

text \<open>The end of the loop body of \<open>parseSegments\<close> for a line that is a segment URI.\<close>

definition segmentURI :: "string \<Rightarrow> seglocals \<times> stream \<Rightarrow> seglocals \<times> stream" where
  "segmentURI line ls =
     (case ls of (loc, s) \<Rightarrow>
      case (if l_sequence loc > q_sequence (o_queue (outp s)) then
              let len = (if Titles (d s) \<noteq> [] \<and> \<not> contains (Titles (d s)) (l_title loc)
                         then 0 else l_length loc);
                  seg = \<lparr>seg_sequence = l_sequence loc, seg_duration = l_duration loc,
                         seg_uri = line, seg_length = len, seg_offset = l_offset loc,
                         seg_comments = l_comments loc\<rparr>;
                  q = \<lparr>q_c = q_c (o_queue (outp s)) @ [seg], q_sequence = l_sequence loc\<rparr>;
                  p = (if l_duration loc > 0
                       then (playlist s)\<lparr>p_lastDuration := wrap64 (l_duration loc * Second)\<rparr>
                       else playlist s)
              in (loc\<lparr>l_newSegments := l_newSegments loc + 1, l_length := len\<rparr>,
                  s\<lparr>playlist := p, outp := (outp s)\<lparr>o_queue := q\<rparr>\<rparr>)
            else (loc, s)) of
        (loc1, s1) \<Rightarrow>
          (loc1\<lparr>l_offset := (if l_length loc1 > 0 then wrap64 (l_offset loc1 + l_length loc1)
                               else l_offset loc1),
                 l_length := - 1, l_duration := 0, l_title := [], l_comments := [],
                 l_sequence := wrap64 (l_sequence loc1 + 1)\<rparr>, s1))"

text \<open>The body of the loop of \<open>parseSegments\<close> for one line; an error ends the function.\<close>

definition segmentLine :: "string \<Rightarrow> seglocals \<times> stream \<Rightarrow> error option \<times> seglocals \<times> stream" where
  "segmentLine line ls =
     (if line = [] then (None, ls)
      else if hd line = CHR ''#'' then
        (case (if HasPrefix line tagPrefix then segmentTag line ls else (None, line, ls)) of
           (Some e, line', ls') \<Rightarrow> (Some e, ls')
         | (None, line', loc', s') \<Rightarrow>
             (None, loc'\<lparr>l_comments := writeLine_Builder (l_comments loc') line'\<rparr>, s'))
      else (None, segmentURI line ls))"

text \<open>\<open>for ok := true; ok; ok = scanner.Scan()\<close>: the first round reads the line the header
  pass stopped at.\<close>

function segmentsLoop :: "seglocals \<times> stream \<Rightarrow> scanner \<Rightarrow> error option \<times> (seglocals \<times> stream) \<times> scanner" where
  "segmentsLoop ls (Scanner t [] f e) =
     (case segmentLine t ls of
        (Some er, ls') \<Rightarrow> (Some er, ls', Scanner t [] f e)
      | (None, ls') \<Rightarrow> (None, ls', Scanner [] [] f f))"
| "segmentsLoop ls (Scanner t (l # rest) f e) =
     (case segmentLine t ls of
        (Some er, ls') \<Rightarrow> (Some er, ls', Scanner t (l # rest) f e)
      | (None, ls') \<Rightarrow> segmentsLoop ls' (Scanner l rest f e))"
  by pat_completeness auto
termination
  by (relation "measure (\<lambda>(ls, sc). length (pending sc))") auto

definition parseSegments :: "stream \<Rightarrow> scanner \<Rightarrow> error option \<times> stream \<times> scanner" where
  "parseSegments s sc =
     (case segmentsLoop
             (\<lparr>l_sequence = p_sequence (playlist s), l_newSegments = 0, l_length = - 1,
               l_offset = - 1, l_duration = 0, l_title = [], l_comments = []\<rparr>, s) sc of
        (Some e, (loc, s1), sc1) \<Rightarrow> (Some e, s1, sc1)
      | (None, (loc, s1), sc1) \<Rightarrow> (Err sc1, s1, sc1))"

text \<open>
  What the server answers to one request: \<open>client.Do\<close> fails, or there is a response
  with its status code, the lines of its body and the error the body stops with.
\<close>

datatype fetch = DoError error | Response int "string list" "error option"

text \<open>The first statement of \<open>fetchPlaylist\<close>: the reload interval falls back to half the
  target duration.\<close>

definition fetchStart :: "stream \<Rightarrow> stream" where
  "fetchStart s =
     s\<lparr>playlist := (playlist s)\<lparr>p_lastDuration := go_quot (p_targetDuration (playlist s)) 2\<rparr>\<rparr>"

definition fetchPlaylist :: "stream \<Rightarrow> fetch \<Rightarrow> error option \<times> stream" where
  "fetchPlaylist s r =
     (let s0 = fetchStart s
      in case r of
           DoError e \<Rightarrow> (Some e, s0)
         | Response status body f \<Rightarrow>
             if status \<noteq> 200 then (Some (httpResponseStatusError status), s0)
             else
               (case parseHeader s0 (NewScanner body f) of
                  (Some e, s1, sc1) \<Rightarrow> (Some e, s1)
                | (None, s1, sc1) \<Rightarrow>
                    (case parseSegments s1 sc1 of (err, s2, sc2) \<Rightarrow> (err, s2))))"


text \<open>
  \<open>Stop\<close> of dumper.go, seen from one rendition: it clears \<open>active\<close> and sets the
  flag \<open>stop\<close> of the dumper the rendition points to.
\<close>

definition Stop :: "stream \<Rightarrow> stream" where
  "Stop s = s\<lparr>playlist := (playlist s)\<lparr>p_active := False\<rparr>, d := (d s)\<lparr>stop := True\<rparr>\<rparr>"

text \<open>
  One round of the poller as the outside world decides it: whether \<open>Stop\<close> is called
  while the poller sleeps, what the server answers, and how long the fetch takes
  (\<open>time.Until(before)\<close> is the negated elapsed time).
\<close>

record round =
  r_stop :: bool
  r_fetch :: fetch
  r_elapsed :: int

text \<open>
  The loop of \<open>playlistLoop\<close> with its variables \<open>sleep\<close> and \<open>err\<close>. The result is
  \<open>Some err\<close> when the loop returns \<open>err\<close> and \<open>None\<close> when it is still running after
  the rounds given, with the state reached and the durations slept.
\<close>

fun pollLoop :: "stream \<Rightarrow> int \<Rightarrow> error option \<Rightarrow> round list \<Rightarrow> error option option \<times> stream \<times> int list" where
  "pollLoop s sleep err [] = (if p_active (playlist s) then (None, s, []) else (Some err, s, []))"
| "pollLoop s sleep err (r # rs) =
     (if \<not> p_active (playlist s) then (Some err, s, [])
      else
        let s1 = (if r_stop r then Stop s else s) in
        if \<not> p_active (playlist s1) then (Some err, s1, [sleep])
        else
          (case fetchPlaylist s1 (r_fetch r) of
             (err1, s2) \<Rightarrow>
               if err1 \<noteq> None \<and> (is_fatalError (the err1) \<or> p_lastDuration (playlist s2) = 0)
               then (Some err1, s2, [sleep])
               else
                 (case pollLoop s2 (wrap64 (- r_elapsed r + p_lastDuration (playlist s2))) err1 rs of
                    (res, s3, sleeps) \<Rightarrow> (res, s3, sleep # sleeps))))"

text \<open>\<open>newRequest\<close> fails when \<open>http.NewRequest\<close> rejects the URL: \<open>req_err\<close>.\<close>

definition playlistLoop :: "stream \<Rightarrow> error option \<Rightarrow> round list \<Rightarrow> error option option \<times> stream \<times> int list" where
  "playlistLoop s req_err rounds =
     (let s0 = s\<lparr>playlist := (playlist s)\<lparr>p_timeout :=
                 (if PlaylistTimeout (d s) \<ge> 0 then PlaylistTimeout (d s) else 5 * Second)\<rparr>\<rparr>
      in case req_err of
           Some e \<Rightarrow> (Some (Some e), s0, [])
         | None \<Rightarrow> pollLoop s0 0 None rounds)"

text \<open>\<open>&stream{d: d, name: name}\<close> with its playlist URL set; every other field is zero.\<close>

definition newStream :: "dumper \<Rightarrow> string \<Rightarrow> string \<Rightarrow> stream" where
  "newStream dm nm u =
     \<lparr>d = dm, name = nm,
      playlist = \<lparr>p_timeout = 0, p_url = u, p_file = None, p_writer = None, p_version = 0,
                  p_sequence = 0, p_targetDuration = 0, p_lastDuration = 0, p_active = False,
                  p_err = None\<rparr>,
      outp = \<lparr>o_timeout = 0, o_file = None, o_offset = 0, o_sequence = 0,
               o_queue = \<lparr>q_c = [], q_sequence = 0\<rparr>, o_files = []\<rparr>\<rparr>"

text \<open>The first three assignments of \<open>dump\<close>: the rendition is active and its queue is new.\<close>

definition dumpInit :: "stream \<Rightarrow> stream" where
  "dumpInit s =
     s\<lparr>playlist := (playlist s)\<lparr>p_active := True\<rparr>,
       outp := (outp s)\<lparr>o_queue := \<lparr>q_c = [], q_sequence = - 1\<rparr>\<rparr>\<rparr>"

section \<open>Downloading segments (download.go)\<close>

text \<open>
  One attempt to download a segment, as the outside world decides it: the segment URI
  resolved against the playlist URL (with its host) or the error of \<open>url.Parse\<close>; the
  response (status code and body) or the error of \<open>client.Do\<close>; the error of creating
  the segment's own file, if any; the number of bytes after which \<open>io.Copy\<close> fails and
  its error, if it fails; the error of \<open>Seek\<close>, if any; and whether \<open>Stop\<close> is called
  during the attempt or the sleep that follows it.
\<close>

record attempt =
  a_url :: "error + (string \<times> string)"
  a_resp :: "error + (int \<times> string)"
  a_create :: "error option"
  a_copy :: "(nat \<times> error) option"
  a_seek :: "error option"
  a_stop :: bool

record request =
  rq_url :: string
  rq_host :: string
  rq_range :: "string option"

text \<open>\<open>createFileWriteOnly\<close>: the error of \<open>os.OpenFile\<close>, if any, or the new, empty file
  with the room the device has for it.\<close>

definition createFileWriteOnly :: "string \<Rightarrow> error option \<Rightarrow> nat option \<Rightarrow> error + osfile" where
  "createFileWriteOnly nm fails room =
     (case fails of
        Some e \<Rightarrow> Inl e
      | None \<Rightarrow> Inr \<lparr>f_name = nm, f_data = [], f_pos = 0, f_room = room\<rparr>)"

text \<open>\<open>Seek(off, io.SeekStart)\<close>: a negative offset is rejected.\<close>

definition Seek :: "osfile \<Rightarrow> int \<Rightarrow> error option \<Rightarrow> error + osfile" where
  "Seek f off fails =
     (case fails of
        Some e \<Rightarrow> Inl e
      | None \<Rightarrow> if off < 0 then Inl (IOError ''invalid argument'') else Inr (f\<lparr>f_pos := nat off\<rparr>))"

text \<open>Closing a segment file leaves its bytes in the directory under its name.\<close>

definition Close :: "osfile \<Rightarrow> (string \<times> string) list \<Rightarrow> (string \<times> string) list" where
  "Close f files = (f_name f, f_data f) # filter (\<lambda>(n, x). n \<noteq> f_name f) files"

text \<open>\<open>path.Base\<close>.\<close>

definition path_Base :: "string \<Rightarrow> string" where
  "path_Base p =
     (if p = [] then ''.''
      else
        let p1 = rev (dropWhile (\<lambda>c. c = CHR ''/'') (rev p));
            p2 = rev (takeWhile (\<lambda>c. c \<noteq> CHR ''/'') (rev p1))
        in if p2 = [] then ''/'' else p2)"

definition checkMissingSegments :: "stream \<Rightarrow> segment \<Rightarrow> error option \<times> stream" where
  "checkMissingSegments s seg =
     (case (if o_sequence (outp s) \<noteq> 0 then
              let n = wrap64 (o_sequence (outp s) + 1);
                  s1 = s\<lparr>outp := (outp s)\<lparr>o_sequence := n\<rparr>\<rparr>
              in if n \<noteq> seg_sequence seg then
                   (case pl_WriteString (playlist s1)
                           (''# WARNING: Missing sequence '' @ itoa n @ ''-''
                              @ itoa (wrap64 (seg_sequence seg - 1)) @ [NL]) of
                      (err, p') \<Rightarrow> (err, s1\<lparr>playlist := p'\<rparr>))
                 else (None, s1)
            else (None, s)) of
        (Some e, s2) \<Rightarrow> (Some e, s2)
      | (None, s2) \<Rightarrow> (None, s2\<lparr>outp := (outp s2)\<lparr>o_sequence := seg_sequence seg\<rparr>\<rparr>))"

text \<open>The deferred \<open>s.playlist.flush(&err)\<close> at the return of a function.\<close>

definition deferFlush :: "error option \<times> stream \<Rightarrow> error option \<times> stream" where
  "deferFlush r =
     (case r of (err, s) \<Rightarrow>
        (case flush (playlist s) err of (err', p') \<Rightarrow> (err', s\<lparr>playlist := p'\<rparr>)))"

text \<open>\<open>strings.ReplaceAll(str, "\n", "\n# SKIP: ")\<close>.\<close>

definition skipMarks :: "string \<Rightarrow> string" where
  "skipMarks str = concat (map (\<lambda>c. if c = NL then NL # ''# SKIP: '' else [c]) str)"

definition processSkippedSegment :: "stream \<Rightarrow> segment \<Rightarrow> error option \<times> stream" where
  "processSkippedSegment s seg =
     (if length (seg_comments seg) > 0 then
        deferFlush
          (case checkMissingSegments s seg of
             (Some e, s1) \<Rightarrow> (Some e, s1)
           | (None, s1) \<Rightarrow>
               (case pl_WriteString (playlist s1) ''# SKIP: '' of
                  (Some e, p1) \<Rightarrow> (Some e, s1\<lparr>playlist := p1\<rparr>)
                | (None, p1) \<Rightarrow>
                    (case pl_writeLine p1 (skipMarks (butlast (seg_comments seg))) of
                       (err, p2) \<Rightarrow> (err, s1\<lparr>playlist := p2\<rparr>))))
      else (None, s))"

text \<open>
  \<open>downloadSegment\<close> from \<open>io.Copy\<close> on, for the file \<open>outputFile\<close> the body goes to. The
  third component is that file afterwards.
\<close>

definition transfer :: "stream \<Rightarrow> segment \<Rightarrow> attempt \<Rightarrow> string \<Rightarrow> osfile \<Rightarrow> error option \<times> stream \<times> osfile" where
  "transfer s seg a body outputFile =
     (case a_copy a of
        Some (k, e) \<Rightarrow>
          let f1 = file_write outputFile (take k body) in
          if SingleFile (d s) then
            (case Seek f1 (o_offset (outp s)) (a_seek a) of
               Inl e2 \<Rightarrow> (Some (FatalError e False), s, f1)
             | Inr f2 \<Rightarrow> (Some e, s, f2))
          else (Some e, s, f1)
      | None \<Rightarrow>
          let f1 = file_write outputFile body;
              size = int (length body);
              start = o_offset (outp s);
              s1 = s\<lparr>outp := (outp s)\<lparr>o_offset := wrap64 (start + size)\<rparr>\<rparr>
          in case deferFlush
                (case checkMissingSegments s1 seg of
                   (Some e, s2) \<Rightarrow> (Some (FatalError e False), s2)
                 | (None, s2) \<Rightarrow>
                     (case pl_WriteString (playlist s2) (seg_comments seg) of
                        (Some e, p1) \<Rightarrow> (Some (FatalError e False), s2\<lparr>playlist := p1\<rparr>)
                      | (None, p1) \<Rightarrow>
                          (case (if SingleFile (d s2)
                                 then pl_WriteString p1
                                        (''#EXT-X-BYTERANGE:'' @ itoa size @ ''@'' @ itoa start @ [NL])
                                 else (None, p1)) of
                             (Some e, p2) \<Rightarrow> (Some (FatalError e False), s2\<lparr>playlist := p2\<rparr>)
                           | (None, p2) \<Rightarrow>
                               (case pl_writeLine p2 (path_Base (f_name outputFile)) of
                                  (err, p3) \<Rightarrow> (fatal err, s2\<lparr>playlist := p3\<rparr>))))) of
               (err, s3) \<Rightarrow> (err, s3, f1))"

text \<open>
  The first half of \<open>downloadSegment\<close>: a ranged request expecting 206 when both length
  and offset are known, else a full request expecting 200; and the timeout of the client.
\<close>

definition partialRequest :: "segment \<Rightarrow> bool" where
  "partialRequest seg = (seg_length seg \<ge> 0 \<and> seg_offset seg \<ge> 0)"

definition expectedStatus :: "segment \<Rightarrow> int" where
  "expectedStatus seg = (if partialRequest seg then 206 else 200)"

definition prepareRequest :: "request \<Rightarrow> segment \<Rightarrow> string \<Rightarrow> string \<Rightarrow> request" where
  "prepareRequest req seg u host =
     req\<lparr>rq_url := u, rq_host := host,
         rq_range := (if partialRequest seg
           then Some (''bytes='' @ itoa (seg_offset seg) @ ''-''
                  @ itoa (wrap64 (wrap64 (seg_offset seg + seg_length seg) - 1)))
           else None)\<rparr>"

definition setTimeout :: "stream \<Rightarrow> segment \<Rightarrow> stream" where
  "setTimeout s seg =
     s\<lparr>outp := (outp s)\<lparr>o_timeout :=
          wrap64 (wrap64 (seg_duration seg * SegmentTimeout (d s)) * Second)\<rparr>\<rparr>"

definition downloadSegment :: "stream \<Rightarrow> request \<Rightarrow> segment \<Rightarrow> attempt \<Rightarrow> error option \<times> stream \<times> request" where
  "downloadSegment s req seg a =
     (case a_url a of
        Inl e \<Rightarrow> (Some e, s, req\<lparr>rq_url := []\<rparr>)
      | Inr (u, host) \<Rightarrow>
          let req1 = prepareRequest req seg u host;
              s1 = setTimeout s seg
          in (case a_resp a of
               Inl e \<Rightarrow> (Some e, s1, req1)
             | Inr (status, body) \<Rightarrow>
                 if status \<noteq> expectedStatus seg then (Some (httpResponseStatusError status), s1, req1)
                 else
                   (case o_file (outp s1) of
                      Some f \<Rightarrow>
                        (case transfer s1 seg a body f of
                           (err, s2, f') \<Rightarrow> (err, s2\<lparr>outp := (outp s2)\<lparr>o_file := Some f'\<rparr>\<rparr>, req1))
                    | None \<Rightarrow>
                        (case createFileWriteOnly (name s1 @ ''-'' @ itoa (seg_sequence seg) @ ''.ts'')
                                (a_create a) None of
                           Inl e \<Rightarrow> (Some e, s1, req1)
                         | Inr f \<Rightarrow>
                             (case transfer s1 seg a body f of
                                (err, s2, f') \<Rightarrow>
                                  (err, s2\<lparr>outp := (outp s2)\<lparr>o_files := Close f' (o_files (outp s2))\<rparr>\<rparr>,
                                   req1))))))"

text \<open>
  \<open>min\<close> of util.go on \<open>uint\<close>, and the backoff \<open>time.Duration(64<<min(try, 4)) *
  time.Millisecond\<close>.
\<close>

definition min_uint :: "int \<Rightarrow> int \<Rightarrow> int" where
  "min_uint a b = (if a < b then a else b)"

definition backoff :: "int \<Rightarrow> int" where
  "backoff try = (64 * 2 ^ nat (min_uint try 4)) * Millisecond"

text \<open>
  The loop of \<open>processSegment\<close> over the attempts the outside world allows; \<open>try\<close> is a
  64-bit unsigned counter, an \<open>int\<close> kept below \<open>2 ^ 64\<close>. The result is \<open>Some err\<close> when the function returns \<open>err\<close>
  and \<open>None\<close> when it is still retrying after the attempts given, with the state, the
  request and the durations slept.
\<close>

fun retryLoop :: "stream \<Rightarrow> request \<Rightarrow> segment \<Rightarrow> int \<Rightarrow> attempt list \<Rightarrow> error option option \<times> stream \<times> request \<times> int list" where
  "retryLoop s req seg try [] = (None, s, req, [])"
| "retryLoop s req seg try (a # as) =
     (case downloadSegment s req seg a of
        (None, s1, req1) \<Rightarrow> (Some None, (if a_stop a then Stop s1 else s1), req1, [])
      | (Some e, s1, req1) \<Rightarrow>
          let try1 = (try + 1) mod 2 ^ 64 in
          if is_fatalError e then (Some (Some e), (if a_stop a then Stop s1 else s1), req1, [])
          else
            let s2 = (if a_stop a then Stop s1 else s1) in
            if stop (d s2) then (Some (Some e), s2, req1, [backoff try1])
            else
              (case retryLoop s2 req1 seg try1 as of
                 (res, s3, req3, delays) \<Rightarrow> (res, s3, req3, backoff try1 # delays)))"

definition processSegment :: "stream \<Rightarrow> request \<Rightarrow> segment \<Rightarrow> attempt list \<Rightarrow> error option option \<times> stream \<times> request \<times> int list" where
  "processSegment s req seg as =
     (if seg_length seg = 0 then
        (case processSkippedSegment s seg of (err, s1) \<Rightarrow> (Some (fatal err), s1, req, []))
      else retryLoop s req seg 0 as)"

text \<open>
  The loop of \<open>downloadWorker\<close> over the segments received from the queue, each with the
  attempts the outside world allows for it. \<open>closed\<close> tells whether the poller has
  closed the queue behind them; on an open, empty queue the worker waits (\<open>None\<close>).
\<close>

fun workerLoop :: "stream \<Rightarrow> request \<Rightarrow> error option \<Rightarrow> bool \<Rightarrow> segment list \<Rightarrow> attempt list list \<Rightarrow> error option option \<times> stream \<times> int list" where
  "workerLoop s req err closed [] atts = ((if closed then Some err else None), s, [])"
| "workerLoop s req err closed (seg # segs) atts =
     (if stop (d s) then (Some err, s, [])
      else case atts of
        [] \<Rightarrow> (None, s, [])
      | as # rest \<Rightarrow>
          (case processSegment s req seg as of
             (None, s1, req1, delays) \<Rightarrow> (None, s1, delays)
           | (Some err1, s1, req1, delays) \<Rightarrow>
               if err1 \<noteq> None \<and> is_fatalError (the err1) \<and> \<not> client (the err1)
               then (Some err1, s1, delays)
               else
                 (case workerLoop s1 req1 err1 closed segs rest of
                    (res, s2, delays2) \<Rightarrow> (res, s2, delays @ delays2))))"

text \<open>What \<open>downloadWorker\<close> meets before its loop: the errors of \<open>newRequest\<close> and of
  creating the single output file, if any.\<close>

record worker_env =
  we_request :: "error option"
  we_create :: "error option"
  we_attempts :: "attempt list list"

definition downloadWorker :: "stream \<Rightarrow> worker_env \<Rightarrow> bool \<Rightarrow> segment list \<Rightarrow> error option option \<times> stream \<times> int list" where
  "downloadWorker s env closed segs =
     (let s0 = (if SegmentTimeout (d s) < 0 then s\<lparr>d := (d s)\<lparr>SegmentTimeout := 5\<rparr>\<rparr> else s);
          req = \<lparr>rq_url = p_url (playlist s0), rq_host = [], rq_range = None\<rparr>
      in case we_request env of
           Some e \<Rightarrow> (Some (Some e), s0, [])
         | None \<Rightarrow>
             (case (if SingleFile (d s0)
                    then (case createFileWriteOnly (name s0 @ ''.ts'') (we_create env) None of
                            Inl e \<Rightarrow> (Some e, s0\<lparr>outp := (outp s0)\<lparr>o_file := None\<rparr>\<rparr>)
                          | Inr f \<Rightarrow> (None, s0\<lparr>outp := (outp s0)\<lparr>o_file := Some f\<rparr>\<rparr>))
                    else (None, s0)) of
                (Some e, s1) \<Rightarrow> (Some (Some e), s1, [])
              | (None, s1) \<Rightarrow>
                  if stop (d s1) then (Some None, s1, [])
                  else workerLoop s1 req None closed segs (we_attempts env)))"

section \<open>One rendition from start to end (dumper.go)\<close>

text \<open>
  \<open>playlistWorker\<close>: when the loop returns, its error is stored, the rendition is no
  longer active and the queue is closed (the flag returned).
\<close>

definition playlistWorker :: "stream \<Rightarrow> error option \<Rightarrow> round list \<Rightarrow> bool \<times> stream" where
  "playlistWorker s req_err rounds =
     (case playlistLoop s req_err rounds of
        (Some err, s1, sleeps) \<Rightarrow> (True, s1\<lparr>playlist := (playlist s1)\<lparr>p_err := err, p_active := False\<rparr>\<rparr>)
      | (None, s1, sleeps) \<Rightarrow> (False, s1))"

text \<open>The end of \<open>dump\<close>, once \<open>downloadWorker\<close> has returned \<open>err\<close>.\<close>

definition dumpFinish :: "stream \<Rightarrow> error option \<Rightarrow> error option \<times> stream" where
  "dumpFinish s err =
     (if p_writer (playlist s) \<noteq> None then
        deferFlush
          (case pl_writeLine (playlist s) ''#EXT-X-ENDLIST'' of
             (err1, p1) \<Rightarrow>
               ((if err1 = None then p_err p1 else err1), s\<lparr>playlist := p1\<rparr>))
      else ((if err = None then p_err (playlist s) else err), s))"

text \<open>
  \<open>dump\<close>. The two workers of a rendition run at the same time; the model runs them one
  after the other: the poller over the rounds given, then the downloader over the
  segments queued. The result is \<open>None\<close> when the downloader has not returned.
  \<open>de_room\<close> is the room the device has for the manifest file; the other files have
  no limit, their failures are those of the attempts.
\<close>

record dump_env =
  de_create :: "error option"
  de_room :: "nat option"
  de_request :: "error option"
  de_rounds :: "round list"
  de_worker :: worker_env

definition dump :: "stream \<Rightarrow> dump_env \<Rightarrow> error option option \<times> stream" where
  "dump s env =
     (let s0 = dumpInit s in
      case createFileWriteOnly (name s0 @ ''.m3u8'') (de_create env) (de_room env) of
        Inl e \<Rightarrow> (Some (Some e), s0)
      | Inr f \<Rightarrow>
          (case playlistWorker (s0\<lparr>playlist := (playlist s0)\<lparr>p_file := Some f\<rparr>\<rparr>)
                  (de_request env) (de_rounds env) of
             (closed, s1) \<Rightarrow>
               (case downloadWorker s1 (de_worker env) closed (q_c (o_queue (outp s1))) of
                  (None, s2, delays) \<Rightarrow> (None, s2)
                | (Some err, s2, delays) \<Rightarrow>
                    (case dumpFinish s2 err of (err', s3) \<Rightarrow> (Some err', s3)))))"

section \<open>Resolving the master playlist (master.go)\<close>

text \<open>
  \<open>attributeListPattern\<close> is \<^verbatim>\<open>([A-Z0-9-]+)=([^",]+|"[^"]*")(?:,|$)\<close>. A match at the start
  of a string is a longest run of key characters, the equals sign, a value that is
  either a longest run without quote and comma or a quoted run without quote, and then
  a comma or the end of the text. \<open>matchAttribute\<close> returns the key, the value as
  matched and the text after the match.
\<close>

definition isKeyChar :: "char \<Rightarrow> bool" where
  "isKeyChar c = (c \<in> set ''ABCDEFGHIJKLMNOPQRSTUVWXYZ0123456789-'')"

abbreviation QUOTE :: char where
  "QUOTE \<equiv> CHR 0x22"

definition matchValue :: "string \<Rightarrow> string \<Rightarrow> string \<Rightarrow> (string \<times> string \<times> string) option" where
  "matchValue key v after =
     (case after of
        [] \<Rightarrow> Some (key, v, [])
      | c # rest \<Rightarrow> if c = CHR '','' then Some (key, v, rest) else None)"

definition matchAttribute :: "string \<Rightarrow> (string \<times> string \<times> string) option" where
  "matchAttribute str =
     (let key = takeWhile isKeyChar str in
      if key = [] then None
      else
        (case dropWhile isKeyChar str of
           [] \<Rightarrow> None
         | c # r2 \<Rightarrow>
             if c \<noteq> CHR ''='' then None
             else
               (case r2 of
                  [] \<Rightarrow> None
                | q # r3 \<Rightarrow>
                    if q = QUOTE then
                      (case dropWhile (\<lambda>x. x \<noteq> QUOTE) r3 of
                         [] \<Rightarrow> None
                       | q2 # r5 \<Rightarrow>
                           matchValue key (q # takeWhile (\<lambda>x. x \<noteq> QUOTE) r3 @ [q2]) r5)
                    else
                      (let v = takeWhile (\<lambda>x. x \<noteq> QUOTE \<and> x \<noteq> CHR '','') r2
                       in if v = [] then None
                          else matchValue key v (dropWhile (\<lambda>x. x \<noteq> QUOTE \<and> x \<noteq> CHR '','') r2)))))"

text \<open>
  \<open>FindAllStringSubmatch\<close>: the matches from left to right, each search starting where
  the match before ended; \<open>skip\<close> counts the characters of the last match still to pass.
\<close>

fun findAll :: "nat \<Rightarrow> string \<Rightarrow> (string \<times> string) list" where
  "findAll skip [] = []"
| "findAll skip (c # cs) =
     (if skip > 0 then findAll (skip - 1) cs
      else
        (case matchAttribute (c # cs) of
           Some (k, v, rest) \<Rightarrow> (k, v) # findAll (length cs - length rest) cs
         | None \<Rightarrow> findAll 0 cs))"

definition stripQuotes :: "string \<Rightarrow> string" where
  "stripQuotes v =
     (if length v \<ge> 2 \<and> hd v = QUOTE \<and> last v = QUOTE then butlast (tl v) else v)"

text \<open>The map returned, as the list of its assignments in order; a later one wins.\<close>

definition parseAttributeList :: "string \<Rightarrow> (string \<times> string) list option" where
  "parseAttributeList v =
     (case findAll 0 v of
        [] \<Rightarrow> None
      | ms \<Rightarrow> Some (map (\<lambda>(k, x). (k, stripQuotes x)) ms))"

definition attrGet :: "(string \<times> string) list \<Rightarrow> string \<Rightarrow> string" where
  "attrGet attr k = (case map_of (rev attr) k of None \<Rightarrow> [] | Some v \<Rightarrow> v)"

definition matchRenditions :: "dumper \<Rightarrow> (string \<times> string) list \<Rightarrow> bool" where
  "matchRenditions dm attr =
     (if length (Groups dm) = 0 then True
      else contains (Groups dm) (attrGet attr ''VIDEO'') \<or> contains (Groups dm) (attrGet attr ''AUDIO'')
           \<or> contains (Groups dm) (attrGet attr ''SUBTITLES'')
           \<or> contains (Groups dm) (attrGet attr ''CLOSED-CAPTIONS''))"

text \<open>
  The switch over the tag name in \<open>parseMaster\<close>: the loop goes on with the flag
  \<open>matchedStream\<close>, or the function returns nil with the streams given, or an error.
\<close>

datatype master_step = Next bool | Done "stream list" | Failed error

definition masterTag :: "dumper \<Rightarrow> string \<Rightarrow> bool \<Rightarrow> stream list \<Rightarrow> string \<Rightarrow> master_step" where
  "masterTag dm masterURL matchedStream streams line =
     (case splitPair (tl line) tagSeparator of (k, v) \<Rightarrow>
        if k = ''EXT-X-MEDIA'' then
          (case parseAttributeList v of
             None \<Rightarrow> Failed (InvalidTag k v errInvalidAttributeList)
           | Some attr \<Rightarrow> Next matchedStream)
        else if k = ''EXT-X-STREAM-INF'' then
          (case parseAttributeList v of
             None \<Rightarrow> Failed (InvalidTag k v errInvalidAttributeList)
           | Some attr \<Rightarrow> Next (if matchRenditions dm attr then True else matchedStream))
        else if k \<in> set mediaTags \<or> k \<in> set segmentTags then
          (if length streams > 0 then Failed errMixedPlaylist
           else Done [newStream dm (Name dm) masterURL])
        else Next matchedStream)"

text \<open>
  The loop of \<open>parseMaster\<close> over the lines after the first, with its variables
  \<open>matchedStream\<close> and \<open>i\<close> and the streams collected. \<open>resolve\<close> is \<open>masterURL.Parse\<close> of
  the library \<open>net/url\<close>.
\<close>

fun masterLoop :: "dumper \<Rightarrow> string \<Rightarrow> (string \<Rightarrow> string \<Rightarrow> error + string) \<Rightarrow> bool \<Rightarrow> int \<Rightarrow> stream list \<Rightarrow> string list \<Rightarrow> error option \<times> stream list" where
  "masterLoop dm masterURL resolve matchedStream i streams [] = (None, streams)"
| "masterLoop dm masterURL resolve matchedStream i streams (line # ls) =
     (if line = [] then masterLoop dm masterURL resolve matchedStream i streams ls
      else if hd line = CHR ''#'' then
        (if \<not> HasPrefix line tagPrefix then masterLoop dm masterURL resolve matchedStream i streams ls
         else
           (case masterTag dm masterURL matchedStream streams line of
              Next m \<Rightarrow> masterLoop dm masterURL resolve m i streams ls
            | Done streams' \<Rightarrow> (None, streams')
            | Failed e \<Rightarrow> (Some e, streams)))
      else if matchedStream then
        (case resolve masterURL line of
           Inl e \<Rightarrow> (Some e, streams)
         | Inr u \<Rightarrow>
             masterLoop dm masterURL resolve False (wrap64 (i + 1))
               (streams @ [newStream dm (Name dm @ ''-'' @ itoa (wrap64 (i + 1))) u]) ls)
      else masterLoop dm masterURL resolve matchedStream i streams ls)"

definition parseMaster :: "dumper \<Rightarrow> stream list \<Rightarrow> string \<Rightarrow> (string \<Rightarrow> string \<Rightarrow> error + string) \<Rightarrow> scanner \<Rightarrow> error option \<times> stream list" where
  "parseMaster dm streams masterURL resolve sc =
     (case Scan sc of
        (False, sc1) \<Rightarrow> (Some (eofIfNil (Err sc1)), streams)
      | (True, sc1) \<Rightarrow>
          if Text sc1 \<noteq> ''#EXTM3U'' then (Some (NotM3U (Text sc1)), streams)
          else masterLoop dm masterURL resolve False 0 streams (pending sc1))"

section \<open>Properties and example inputs\<close>

fun ctl_val :: "'a ctl \<Rightarrow> 'a" where
  "ctl_val (Continue x) = x"
| "ctl_val (Break x) = x"
| "ctl_val (Return e x) = x"

text \<open>
  The queue of a rendition is in order when the sequence numbers sent on it increase
  strictly and none exceeds \<open>queue.sequence\<close>, the last number enqueued.
\<close>

definition queue_inv :: "queue \<Rightarrow> bool" where
  "queue_inv q = (sorted_wrt (<) (map seg_sequence (q_c q)) \<and>
                  list_all (\<lambda>g. seg_sequence g \<le> q_sequence q) (q_c q))"

definition queue_ext :: "queue \<Rightarrow> queue \<Rightarrow> bool" where
  "queue_ext q q' =
     (\<exists>new. q_c q' = q_c q @ new \<and> list_all (\<lambda>g. q_sequence q < seg_sequence g) new
        \<and> q_sequence q \<le> q_sequence q' \<and> (queue_inv q \<longrightarrow> queue_inv q'))"

definition ex_dumper :: dumper where
  "ex_dumper = \<lparr>URL = ''http://host/live.m3u8'', Name = ''base'', SingleFile = True,
     Verbose = False, Groups = [], Titles = [], PlaylistTimeout = - 1, SegmentTimeout = - 1,
     stop = False\<rparr>"

definition ex_file :: "string \<Rightarrow> osfile" where
  "ex_file nm = \<lparr>f_name = nm, f_data = [], f_pos = 0, f_room = None\<rparr>"

text \<open>A rendition as \<open>dump\<close> hands it to its two workers.\<close>

definition ex_stream :: stream where
  "ex_stream =
     (let s = dumpInit (newStream ex_dumper ''base'' ''http://host/live.m3u8'')
      in s\<lparr>playlist := (playlist s)\<lparr>p_file := Some (ex_file ''base.m3u8'')\<rparr>\<rparr>)"

text \<open>Two reloads of a live playlist whose windows overlap in the segment 8.\<close>

definition ex_reload1 :: "string list" where
  "ex_reload1 = [''#EXTM3U'', ''#EXT-X-VERSION:3'', ''#EXT-X-TARGETDURATION:10'',
     ''#EXT-X-MEDIA-SEQUENCE:7'', ''#EXTINF:9.5,'', ''a7.ts'', ''#EXTINF:9.5,'', ''a8.ts'']"

definition ex_reload2 :: "string list" where
  "ex_reload2 = [''#EXTM3U'', ''#EXT-X-VERSION:3'', ''#EXT-X-TARGETDURATION:10'',
     ''#EXT-X-MEDIA-SEQUENCE:8'', ''#EXTINF:9.5,'', ''a8.ts'', ''#EXTINF:9.5,'', ''a9.ts'',
     ''#EXT-X-ENDLIST'']"

definition ex_rounds :: "round list" where
  "ex_rounds =
     [\<lparr>r_stop = False, r_fetch = Response 200 ex_reload1 None, r_elapsed = 1\<rparr>,
      \<lparr>r_stop = False, r_fetch = Response 200 ex_reload2 None, r_elapsed = 1\<rparr>]"




text \<open>The rendition after its first reload, and a header with a given media sequence.\<close>

definition ex_after1 :: stream where
  "ex_after1 = snd (fetchPlaylist ex_stream (Response 200 ex_reload1 None))"







text \<open>Attempts at a segment: one that succeeds with a given body, one that meets a
  status code, one whose connection fails.\<close>

definition ex_ok :: "string \<Rightarrow> attempt" where
  "ex_ok body = \<lparr>a_url = Inr (''http://host/seg.ts'', ''host''), a_resp = Inr (200, body),
     a_create = None, a_copy = None, a_seek = None, a_stop = False\<rparr>"

definition ex_status :: "int \<Rightarrow> attempt" where
  "ex_status code = \<lparr>a_url = Inr (''http://host/seg.ts'', ''host''), a_resp = Inr (code, []),
     a_create = None, a_copy = None, a_seek = None, a_stop = False\<rparr>"

definition ex_timeout :: attempt where
  "ex_timeout = \<lparr>a_url = Inr (''http://host/seg.ts'', ''host''),
     a_resp = Inl (IOError ''timeout''), a_create = None, a_copy = None, a_seek = None,
     a_stop = False\<rparr>"

text \<open>A body transfer that breaks after two bytes; the seek back works or fails.\<close>

definition ex_broken :: "error option \<Rightarrow> attempt" where
  "ex_broken seek = \<lparr>a_url = Inr (''http://host/seg.ts'', ''host''), a_resp = Inr (200, ''AAAA''),
     a_create = None, a_copy = Some (2, IOError ''unexpected EOF''), a_seek = seek,
     a_stop = False\<rparr>"

definition ex_request :: request where
  "ex_request = \<lparr>rq_url = ''http://host/live.m3u8'', rq_host = [], rq_range = None\<rparr>"

definition ex_segment :: "int \<Rightarrow> segment" where
  "ex_segment n = \<lparr>seg_sequence = n, seg_duration = 9, seg_uri = ''seg.ts'', seg_length = - 1,
     seg_offset = - 1, seg_comments = ''#EXTINF:9.5,'' @ [NL]\<rparr>"

text \<open>The rendition in single-file mode with its output file open, after one segment of
  four bytes.\<close>

definition ex_single :: stream where
  "ex_single =
     ex_after1\<lparr>outp := (outp ex_after1)\<lparr>o_file := Some \<lparr>f_name = ''base.ts'', f_data = ''ZZZZ'',
       f_pos = 4, f_room = None\<rparr>, o_offset := 4, o_sequence := 6\<rparr>\<rparr>"

text \<open>
  The manifest expected by the specification for segments stored in one file: for each
  segment a comment when sequence numbers were skipped, the comment lines buffered for
  it, its byte range \<open>size@offset\<close> and the name of the file; the offsets are the
  exclusive prefix sums of the sizes.
\<close>

definition gap_note :: "int \<Rightarrow> segment \<Rightarrow> string" where
  "gap_note prev seg =
     (if prev \<noteq> 0 \<and> wrap64 (prev + 1) \<noteq> seg_sequence seg
      then ''# WARNING: Missing sequence '' @ itoa (wrap64 (prev + 1)) @ ''-''
             @ itoa (wrap64 (seg_sequence seg - 1)) @ [NL]
      else [])"

definition byterange_entry :: "string \<Rightarrow> int \<times> segment \<times> string \<times> int \<Rightarrow> string" where
  "byterange_entry fname x =
     (case x of (prev, seg, body, off) \<Rightarrow>
        gap_note prev seg @ seg_comments seg @ ''#EXT-X-BYTERANGE:'' @ itoa (int (length body))
          @ ''@'' @ itoa off @ [NL] @ fname @ [NL])"

fun prefix_sums :: "int \<Rightarrow> int list \<Rightarrow> int list" where
  "prefix_sums acc [] = []"
| "prefix_sums acc (x # xs) = acc # prefix_sums (acc + x) xs"

definition sizes :: "string list \<Rightarrow> int list" where
  "sizes bodies = map (\<lambda>b. int (length b)) bodies"

definition expected_manifest :: "string \<Rightarrow> int \<Rightarrow> int \<Rightarrow> segment list \<Rightarrow> string list \<Rightarrow> string" where
  "expected_manifest fname prev0 off0 segs bodies =
     concat (map (byterange_entry fname)
       (zip (prev0 # map seg_sequence segs)
          (zip segs (zip bodies (prefix_sums off0 (sizes bodies))))))"



text \<open>The manifest writer can take and flush what is written to it.\<close>

definition manifest_open :: "playlist \<Rightarrow> writer \<Rightarrow> osfile \<Rightarrow> bool" where
  "manifest_open p w pf =
     (p_writer p = Some w \<and> w_err w = None \<and> p_file p = Some pf \<and> f_room pf = None
      \<and> f_pos pf = length (f_data pf))"



text \<open>A scanner standing on the first of the given lines, as the header pass leaves it.\<close>

fun scanner_at :: "string list \<Rightarrow> error option \<Rightarrow> scanner" where
  "scanner_at [] f = Scanner [] [] f None"
| "scanner_at (l # ls) f = Scanner l ls f None"

text \<open>The lines that \<open>parseSegments\<close> reads as an \<open>EXT-X-BYTERANGE\<close> tag.\<close>

definition is_byterange :: "string \<Rightarrow> bool" where
  "is_byterange line =
     (line \<noteq> [] \<and> hd line = CHR ''#'' \<and> HasPrefix line tagPrefix
      \<and> fst (splitPair (tl line) tagSeparator) = ''EXT-X-BYTERANGE'')"

text \<open>The running offset is unknown: the state of the locals of \<open>parseSegments\<close> until
  a byte range with an explicit offset is read.\<close>

definition offset_unknown :: "seglocals \<Rightarrow> bool" where
  "offset_unknown loc = (l_offset loc = - 1 \<and> l_length loc \<le> 0)"

text \<open>The errors of the segment pass up to and including its first byte range without
  an offset: that of the byte range, or that of a malformed tag before it.\<close>

definition first_range_error :: "string \<Rightarrow> error \<Rightarrow> bool" where
  "first_range_error lstr e =
     (e = FatalError (InvalidTag ''EXT-X-BYTERANGE'' lstr errOffsetFirstSegment) False
      \<or> (\<exists>k v c. e = FatalError (InvalidTag k v c) False \<and> k \<noteq> ''EXT-X-BYTERANGE''))"

text \<open>
  Lines of the segment section, as the text has them. A segment URI is a line that is
  neither blank nor a comment. Another line is blank, a comment, or a tag that is neither
  \<open>EXT-X-BYTERANGE\<close> nor \<open>EXT-X-GAP\<close> and whose duration, in \<open>EXTINF\<close>, is well formed: the
  segment pass reads it without error and keeps the length and the running offset.
\<close>

definition is_uri :: "string \<Rightarrow> bool" where
  "is_uri line = (line \<noteq> [] \<and> hd line \<noteq> CHR ''#'')"

definition segment_other :: "string \<Rightarrow> bool" where
  "segment_other line =
     (line = [] \<or>
      (hd line = CHR ''#'' \<and>
       (HasPrefix line tagPrefix \<longrightarrow>
          (case splitPair (tl line) tagSeparator of (k, v) \<Rightarrow>
             k \<noteq> ''EXT-X-BYTERANGE'' \<and> k \<noteq> ''EXT-X-GAP'' \<and>
             (k = ''EXTINF'' \<longrightarrow>
                (case Atoi (fst (splitPair (fst (splitPair v (CHR '',''))) (CHR ''.''))) of
                   Inl e \<Rightarrow> False | Inr n \<Rightarrow> True))))))"

text \<open>
  The running offset after a segment whose byte range had the length \<open>len\<close> and the
  offset \<open>off\<close>: \<open>if length > 0 { offset += length }\<close>.
\<close>

definition running :: "int \<Rightarrow> int \<Rightarrow> int" where
  "running len off = (if 0 < len then wrap64 (off + len) else off)"

text \<open>The segments sent on the queue, each with its URI, length and offset.\<close>

definition ranges :: "stream \<Rightarrow> (string \<times> int \<times> int) list" where
  "ranges s = map (\<lambda>g. (seg_uri g, seg_length g, seg_offset g)) (q_c (o_queue (outp s)))"

text \<open>What the lines between the tags and the URIs leave as it is.\<close>

definition keeps :: "seglocals \<times> stream \<Rightarrow> seglocals \<times> stream \<Rightarrow> bool" where
  "keeps x y =
     (l_length (fst y) = l_length (fst x) \<and> l_offset (fst y) = l_offset (fst x)
      \<and> l_sequence (fst y) = l_sequence (fst x) \<and> outp (snd y) = outp (snd x)
      \<and> d (snd y) = d (snd x))"

text \<open>Locals of the segment pass with a given running offset, and two playlists: one whose
  first segment has a byte range without offset, one whose second segment has.\<close>

definition ex_locals :: "int \<Rightarrow> seglocals" where
  "ex_locals off = \<lparr>l_sequence = 7, l_newSegments = 0, l_length = - 1, l_offset = off,
     l_duration = 9, l_title = [], l_comments = []\<rparr>"

definition ex_range_first :: "string list" where
  "ex_range_first = [''#EXTM3U'', ''#EXT-X-VERSION:4'', ''#EXT-X-TARGETDURATION:10'',
     ''#EXTINF:9.5,'', ''#EXT-X-BYTERANGE:100'', ''all.ts'']"

definition ex_range_second :: "string list" where
  "ex_range_second = [''#EXTM3U'', ''#EXT-X-VERSION:4'', ''#EXT-X-TARGETDURATION:10'',
     ''#EXTINF:9.5,'', ''#EXT-X-BYTERANGE:100@0'', ''all.ts'',
     ''#EXTINF:9.5,'', ''#EXT-X-BYTERANGE:50'', ''all.ts'']"

text \<open>
  A round in which the playlist fetch fails without a fatal error before the body is
  read: the connection fails, or the status is neither 200 nor a client error.
\<close>

definition transient_fetch :: "round \<Rightarrow> bool" where
  "transient_fetch r =
     (\<not> r_stop r \<and>
      (case r_fetch r of
         DoError e \<Rightarrow> \<not> is_fatalError e
       | Response status body f \<Rightarrow>
           status \<noteq> 200 \<and> \<not> (400 \<le> status \<and> status < 500 \<and> status \<noteq> 429)))"

definition ex_unavailable :: round where
  "ex_unavailable = \<lparr>r_stop = False, r_fetch = Response 503 [] None, r_elapsed = 1\<rparr>"

text \<open>The name \<open>base-k\<close>, and the streams named \<open>base-1\<close>, \<open>base-2\<close> and so on in order.\<close>

definition numbered :: "dumper \<Rightarrow> nat \<Rightarrow> string" where
  "numbered dm k = Name dm @ ''-'' @ itoa (int k)"

definition names_numbered :: "dumper \<Rightarrow> stream list \<Rightarrow> bool" where
  "names_numbered dm streams = (map name streams = map (numbered dm) [1..<Suc (length streams)])"

text \<open>Master playlists with one and with two variant streams, and a stand-in for the
  resolution of references that takes every reference as absolute.\<close>

definition ex_resolve :: "string \<Rightarrow> string \<Rightarrow> error + string" where
  "ex_resolve base ref = Inr ref"

definition ex_master_one :: "string list" where
  "ex_master_one = [''#EXTM3U'', ''#EXT-X-STREAM-INF:BANDWIDTH=1280000,CODECS='' @ [QUOTE] @ ''avc1'' @ [QUOTE],
     ''http://host/low.m3u8'']"

definition ex_master_two :: "string list" where
  "ex_master_two = [''#EXTM3U'', ''#EXT-X-STREAM-INF:BANDWIDTH=1280000'', ''http://host/low.m3u8'',
     ''#EXT-X-STREAM-INF:BANDWIDTH=2560000'', ''http://host/mid.m3u8'']"

text \<open>A line of the top-level manifest that shows it to be a media playlist: a tag of the
  media or segment vocabulary.\<close>

definition media_line :: "string \<Rightarrow> bool" where
  "media_line line =
     (line \<noteq> [] \<and> hd line = CHR ''#'' \<and> HasPrefix line tagPrefix
      \<and> (fst (splitPair (tl line) tagSeparator) \<in> set mediaTags
           \<or> fst (splitPair (tl line) tagSeparator) \<in> set segmentTags))"

text \<open>
  A master playlist as the text has it. Another line is blank, a comment, or a tag that
  is neither \<open>EXT-X-STREAM-INF\<close> nor of the vocabulary of media playlists and whose
  attribute list, in \<open>EXT-X-MEDIA\<close>, is well formed. A variant is an \<open>EXT-X-STREAM-INF\<close> tag
  with its attribute list and the URI line that follows it, with other lines before the
  tag and between the two.
\<close>

definition master_other :: "string \<Rightarrow> bool" where
  "master_other line =
     (line = [] \<or>
      (hd line = CHR ''#'' \<and>
       (HasPrefix line tagPrefix \<longrightarrow>
          (case splitPair (tl line) tagSeparator of (k, v) \<Rightarrow>
             k \<noteq> ''EXT-X-STREAM-INF'' \<and> k \<notin> set mediaTags \<and> k \<notin> set segmentTags \<and>
             (k = ''EXT-X-MEDIA'' \<longrightarrow> parseAttributeList v \<noteq> None)))))"

type_synonym variant = "string list \<times> string \<times> string list \<times> string"

definition variant_lines :: "variant \<Rightarrow> string list" where
  "variant_lines x = (case x of (pre, attrs, mid, uri) \<Rightarrow>
     pre @ (''#EXT-X-STREAM-INF:'' @ attrs) # mid @ [uri])"

definition variant_uri :: "variant \<Rightarrow> string" where
  "variant_uri x = (case x of (pre, attrs, mid, uri) \<Rightarrow> uri)"

definition variant_wf :: "string \<Rightarrow> (string \<Rightarrow> string \<Rightarrow> error + string) \<Rightarrow> variant \<Rightarrow> bool" where
  "variant_wf url resolve x = (case x of (pre, attrs, mid, uri) \<Rightarrow>
     list_all master_other pre \<and> parseAttributeList attrs \<noteq> None \<and> list_all master_other mid
     \<and> is_uri uri \<and> (case resolve url uri of Inl e \<Rightarrow> False | Inr u \<Rightarrow> True))"

text \<open>The variants that the group filter of the dumper selects.\<close>

definition selected :: "dumper \<Rightarrow> variant \<Rightarrow> bool" where
  "selected dm x = (case x of (pre, attrs, mid, uri) \<Rightarrow>
     (case parseAttributeList attrs of None \<Rightarrow> False | Some attr \<Rightarrow> matchRenditions dm attr))"

text \<open>
  The jobs expected for the variants selected: the one at position \<open>k\<close>, counted from 1
  after the \<open>i\<close> jobs before, is named \<open>base-k\<close> and fetches the URI of its variant
  resolved against the URL of the master playlist.
\<close>

definition the_url :: "error + string \<Rightarrow> string" where
  "the_url r = (case r of Inl e \<Rightarrow> [] | Inr u \<Rightarrow> u)"

fun expected_jobs :: "dumper \<Rightarrow> string \<Rightarrow> (string \<Rightarrow> string \<Rightarrow> error + string) \<Rightarrow> nat \<Rightarrow> variant list \<Rightarrow> stream list" where
  "expected_jobs dm url resolve i [] = []"
| "expected_jobs dm url resolve i (x # xs) =
     newStream dm (numbered dm (Suc i)) (the_url (resolve url (variant_uri x)))
       # expected_jobs dm url resolve (Suc i) xs"

text \<open>The two variants of the master playlist \<open>ex_master_two\<close>.\<close>

definition ex_variants :: "variant list" where
  "ex_variants = [([], ''BANDWIDTH=1280000'', [], ''http://host/low.m3u8''),
     ([], ''BANDWIDTH=2560000'', [], ''http://host/mid.m3u8'')]"

text \<open>A whole run of one rendition in which the device has room for 100 bytes of manifest:
  the preamble fits, of the entry of the first segment only the first 26 bytes do.\<close>

definition ex_run_full :: dump_env where
  "ex_run_full = \<lparr>de_create = None, de_room = Some 100, de_request = None,
     de_rounds = ex_rounds,
     de_worker = \<lparr>we_request = None, we_create = None,
       we_attempts = [[ex_ok ''AAAA''], [ex_ok ''BB''], [ex_ok ''CCC'']]\<rparr>\<rparr>"

definition ex_run :: dump_env where
  "ex_run = ex_run_full\<lparr>de_room := None\<rparr>"

definition ex_new :: stream where
  "ex_new = newStream ex_dumper ''base'' ''http://host/live.m3u8''"

definition ex_preamble :: string where
  "ex_preamble = ''#EXTM3U'' @ [NL] @ ''#EXT-X-VERSION:4'' @ [NL] @ ''#EXT-X-TARGETDURATION:10'' @ [NL]
     @ ''#EXT-X-MEDIA-SEQUENCE:7'' @ [NL]"

text \<open>The rendition after its first reload with a manifest writer that has met an error.\<close>

definition ex_stuck :: stream where
  "ex_stuck = ex_after1\<lparr>playlist := (playlist ex_after1)\<lparr>p_writer :=
     Some \<lparr>w_buf = [], w_err = Some (IOError ''no space left on device'')\<rparr>\<rparr>\<rparr>"

text \<open>
  Retries. An attempt fails transiently in a state when \<open>downloadSegment\<close> returns an
  error that is not fatal and nobody stops the rendition meanwhile; a body transfer that
  breaks has then written at most \<open>k\<close> bytes. The sink agrees with the mode when the
  single file is open exactly in single-file mode, with its position at the write cursor.
\<close>

definition fails_transiently :: "stream \<Rightarrow> request \<Rightarrow> segment \<Rightarrow> attempt \<Rightarrow> bool" where
  "fails_transiently s req seg a =
     (\<not> a_stop a \<and>
      (case fst (downloadSegment s req seg a) of None \<Rightarrow> False | Some e \<Rightarrow> \<not> is_fatalError e))"

definition partial_bound :: "nat \<Rightarrow> attempt \<Rightarrow> bool" where
  "partial_bound L a = (case a_copy a of None \<Rightarrow> True | Some (k, e) \<Rightarrow> k \<le> L)"

definition sink_consistent :: "stream \<Rightarrow> bool" where
  "sink_consistent s =
     (case o_file (outp s) of
        None \<Rightarrow> \<not> SingleFile (d s)
      | Some f \<Rightarrow> SingleFile (d s) \<and> int (f_pos f) = o_offset (outp s))"

definition segfile :: "stream \<Rightarrow> segment \<Rightarrow> string" where
  "segfile s seg = name s @ ''-'' @ itoa (seg_sequence seg) @ ''.ts''"

text \<open>The lines a successful download adds to the manifest, in either mode.\<close>

definition manifest_entry :: "bool \<Rightarrow> string \<Rightarrow> int \<times> segment \<times> string \<times> int \<Rightarrow> string" where
  "manifest_entry single fname x =
     (case x of (prev, seg, body, off) \<Rightarrow>
        gap_note prev seg @ seg_comments seg
          @ (if single then ''#EXT-X-BYTERANGE:'' @ itoa (int (length body)) @ ''@'' @ itoa off @ [NL]
             else [])
          @ fname @ [NL])"

text \<open>
  A state reached from \<open>s\<close> by failed attempts at a segment whose body has \<open>L\<close> bytes:
  only the timeout and the files differ, and so that writing a body of \<open>L\<close> bytes, or
  closing the segment's file, wipes the difference out.
\<close>

definition retried :: "nat \<Rightarrow> segment \<Rightarrow> stream \<Rightarrow> stream \<Rightarrow> bool" where
  "retried L seg s s' =
     (\<exists>t F G. s' = s\<lparr>outp := (outp s)\<lparr>o_timeout := t, o_file := F, o_files := G\<rparr>\<rparr>
        \<and> (case o_file (outp s) of
              None \<Rightarrow> F = None
                \<and> filter (\<lambda>(n, x). n \<noteq> segfile s seg) G
                    = filter (\<lambda>(n, x). n \<noteq> segfile s seg) (o_files (outp s))
            | Some f \<Rightarrow> G = o_files (outp s)
                \<and> (\<exists>f'. F = Some f' \<and> f_name f' = f_name f \<and> f_pos f' = f_pos f
                      \<and> f_room f' = f_room f
                      \<and> (\<forall>B. length B = L \<longrightarrow>
                            write_at (f_pos f) (f_data f') B = write_at (f_pos f) (f_data f) B))))"

section \<open>Verification\<close>

subsection \<open>The queue of a rendition\<close>

lemma queue_ext_refl: "queue_ext q q"
  by (simp add: queue_ext_def)

lemma queue_ext_trans: "queue_ext q q' \<Longrightarrow> queue_ext q' q'' \<Longrightarrow> queue_ext q q''"
  unfolding queue_ext_def
  apply (elim exE conjE)
  subgoal for n1 n2
    apply (rule exI[of _ "n1 @ n2"])
    apply (auto simp: list_all_iff)
    done
  done

lemma queue_ext_push:
  assumes "q_sequence q < n" and "seg_sequence g = n"
  shows "queue_ext q \<lparr>q_c = q_c q @ [g], q_sequence = n\<rparr>"
  using assms unfolding queue_ext_def queue_inv_def
  by (auto simp: sorted_wrt_append list_all_iff intro!: exI[of _ "[g]"])

lemma segmentURI_queue:
  "segmentURI line (loc, s) = (loc', s') \<Longrightarrow> queue_ext (o_queue (outp s)) (o_queue (outp s'))"
  unfolding segmentURI_def
  by (auto simp: Let_def queue_ext_refl split: if_splits intro!: queue_ext_push)

lemma segmentTag_outp:
  "segmentTag line (loc, s) = (err, line', loc', s') \<Longrightarrow> outp s' = outp s"
  unfolding segmentTag_def
  by (auto split: prod.splits sum.splits if_splits)

lemma segmentLine_queue:
  "segmentLine line (loc, s) = (err, loc', s') \<Longrightarrow> queue_ext (o_queue (outp s)) (o_queue (outp s'))"
  unfolding segmentLine_def
  by (auto simp: queue_ext_refl split: if_splits prod.splits option.splits
           dest: segmentTag_outp segmentURI_queue)

lemma segmentsLoop_queue:
  "segmentsLoop (loc, s) sc = (err, (loc', s'), sc') \<Longrightarrow> queue_ext (o_queue (outp s)) (o_queue (outp s'))"
proof (induction "(loc, s)" sc arbitrary: loc s rule: segmentsLoop.induct)
  case (1 t f e)
  then show ?case
    by (auto split: prod.splits option.splits dest: segmentLine_queue)
next
  case (2 t l rest f e)
  show ?case
  proof (cases "segmentLine t (loc, s)")
    case (fields er loc1 s1)
    have step: "queue_ext (o_queue (outp s)) (o_queue (outp s1))"
      using fields by (rule segmentLine_queue)
    show ?thesis
    proof (cases er)
      case None
      with 2 fields have "queue_ext (o_queue (outp s1)) (o_queue (outp s'))"
        by auto
      with step show ?thesis by (rule queue_ext_trans)
    next
      case (Some x)
      with 2 fields step show ?thesis by auto
    qed
  qed
qed


lemma parseSegments_queue:
  "parseSegments s sc = (err, s', sc') \<Longrightarrow> queue_ext (o_queue (outp s)) (o_queue (outp s'))"
  unfolding parseSegments_def
  by (auto split: prod.splits option.splits dest: segmentsLoop_queue)

lemma pl_writeLine_None [simp]: "p_writer p = None \<Longrightarrow> pl_writeLine p l = (Some panic, p)"
  by (simp add: pl_writeLine_def)

lemma headerTag_outp:
  "outp (snd (snd (ctl_val (headerTag i line (h, s))))) = outp s"
  unfolding headerTag_def
  by (auto split: prod.splits sum.splits if_splits)

lemma pl_writeLine_cases:
  obtains e p' where "pl_writeLine p l = (e, p')"
  by (cases "pl_writeLine p l") auto

lemma headerLine_outp:
  "outp (snd (ctl_val (headerLine i line (h, s)))) = outp s"
proof -
  have t: "outp (snd (snd (ctl_val (headerTag i line (h, s))))) = outp s"
    by (rule headerTag_outp)
  show ?thesis
    unfolding headerLine_def using t
    by (auto split: prod.splits ctl.splits option.splits)
qed

lemma headerLoop_outp:
  "headerLoop i (h, s) sc = (err, (h', s'), sc') \<Longrightarrow> outp s' = outp s"
proof (induction i "(h, s)" sc arbitrary: h s rule: headerLoop.induct)
  case (1 initial t f e)
  then show ?case by auto
next
  case (2 initial t l ls f e)
  have st: "outp (snd (ctl_val (headerLine initial l (h, s)))) = outp s"
    by (rule headerLine_outp)
  show ?case
  proof (cases "headerLine initial l (h, s)")
    case (Continue x1)
    obtain h1 s1 where x1: "x1 = (h1, s1)" by (cases x1)
    from Continue x1 st have "outp s1 = outp s" by simp
    moreover from 2 Continue x1 have "outp s' = outp s1" by auto
    ultimately show ?thesis by simp
  next
    case (Break x2)
    with 2 st show ?thesis by auto
  next
    case (Return x31 x32)
    with 2 st show ?thesis by auto
  qed
qed

lemma headerFinish_outp: "headerFinish h s = (err, s') \<Longrightarrow> outp s' = outp s"
  unfolding headerFinish_def by (auto simp: Let_def split: if_splits)

lemma headerBody_outp: "headerBody i s sc = (err, s', sc') \<Longrightarrow> outp s' = outp s"
  unfolding headerBody_def
  by (auto split: prod.splits option.splits if_splits dest!: headerLoop_outp headerFinish_outp)

lemma parseHeader_outp: "parseHeader s sc = (err, s', sc') \<Longrightarrow> outp s' = outp s"
  unfolding parseHeader_def
  by (auto simp: Let_def flush_def split: prod.splits option.splits if_splits bool.splits
           dest!: headerBody_outp)

lemma fetchStart_outp [simp]: "outp (fetchStart s) = outp s"
  by (simp add: fetchStart_def)

lemma fetchPlaylist_queue:
  "fetchPlaylist s r = (err, s') \<Longrightarrow> queue_ext (o_queue (outp s)) (o_queue (outp s'))"
  unfolding fetchPlaylist_def
  by (auto simp: Let_def queue_ext_refl split: fetch.splits prod.splits option.splits if_splits
           dest!: parseHeader_outp parseSegments_queue)

lemma pollLoop_queue:
  "pollLoop s sl err rs = (res, s', sls) \<Longrightarrow> queue_ext (o_queue (outp s)) (o_queue (outp s'))"
proof (induction rs arbitrary: s sl err res s' sls)
  case Nil
  then show ?case by (auto simp: queue_ext_refl split: if_splits)
next
  case (Cons r rs)
  show ?case
  proof (cases "p_active (playlist s) \<and> p_active (playlist (if r_stop r then Stop s else s))")
    case False
    with Cons.prems show ?thesis
      by (auto simp: Let_def Stop_def queue_ext_refl split: if_splits)
  next
    case True
    then have ns: "(if r_stop r then Stop s else s) = s" by (auto simp: Stop_def)
    obtain e1 s2 where f: "fetchPlaylist s (r_fetch r) = (e1, s2)" by (cases "fetchPlaylist s (r_fetch r)")
    have q1: "queue_ext (o_queue (outp s)) (o_queue (outp s2))" using f by (rule fetchPlaylist_queue)
    show ?thesis
    proof (cases "e1 \<noteq> None \<and> (is_fatalError (the e1) \<or> p_lastDuration (playlist s2) = 0)")
      case True
      with Cons.prems \<open>p_active (playlist s) \<and> _\<close> ns f q1 show ?thesis by (auto simp: Let_def)
    next
      case False
      obtain res3 s3 sl3 where p: "pollLoop s2 (wrap64 (- r_elapsed r + p_lastDuration (playlist s2))) e1 rs = (res3, s3, sl3)"
        by (cases "pollLoop s2 (wrap64 (- r_elapsed r + p_lastDuration (playlist s2))) e1 rs")
      have "queue_ext (o_queue (outp s2)) (o_queue (outp s3))" using p by (rule Cons.IH)
      with q1 have "queue_ext (o_queue (outp s)) (o_queue (outp s3))" by (rule queue_ext_trans)
      moreover from Cons.prems \<open>p_active (playlist s) \<and> _\<close> ns f False p have "s' = s3"
        by (auto simp: Let_def)
      ultimately show ?thesis by simp
    qed
  qed
qed

text \<open>
  Claim C1. Whatever the server answers over any number of reloads, the poller of one
  rendition only appends to the queue, every segment it appends has a sequence number
  strictly greater than the last one enqueued before, and the sequence numbers in the
  queue stay strictly increasing, hence without duplicates.
\<close>

theorem C1_enqueued_sequences_strictly_increasing:
  assumes "queue_inv (o_queue (outp s))"
  shows "sorted_wrt (<) (map seg_sequence (q_c (o_queue (outp (fst (snd (playlistLoop s req_err rounds)))))))
       \<and> distinct (map seg_sequence (q_c (o_queue (outp (fst (snd (playlistLoop s req_err rounds)))))))
       \<and> (\<exists>new. q_c (o_queue (outp (fst (snd (playlistLoop s req_err rounds))))) = q_c (o_queue (outp s)) @ new
              \<and> list_all (\<lambda>g. q_sequence (o_queue (outp s)) < seg_sequence g) new)"
proof -
  obtain res s' sl where pl: "playlistLoop s req_err rounds = (res, s', sl)"
    by (cases "playlistLoop s req_err rounds")
  have ext: "queue_ext (o_queue (outp s)) (o_queue (outp s'))"
  proof (cases req_err)
    case None
    with pl have "pollLoop (s\<lparr>playlist := (playlist s)\<lparr>p_timeout :=
                 (if PlaylistTimeout (d s) \<ge> 0 then PlaylistTimeout (d s) else 5 * Second)\<rparr>\<rparr>) 0 None rounds = (res, s', sl)"
      by (simp add: playlistLoop_def Let_def)
    then show ?thesis by (auto dest: pollLoop_queue)
  next
    case (Some e)
    with pl show ?thesis by (auto simp: playlistLoop_def Let_def queue_ext_refl)
  qed
  with assms have inv: "queue_inv (o_queue (outp s'))" by (auto simp: queue_ext_def)
  then have so: "sorted_wrt (<) (map seg_sequence (q_c (o_queue (outp s'))))"
    by (simp add: queue_inv_def)
  then have "distinct (map seg_sequence (q_c (o_queue (outp s'))))"
    using strict_sorted_iff by blast
  with so ext pl show ?thesis by (auto simp: queue_ext_def)
qed


theorem C1_witness:
  "queue_inv (o_queue (outp ex_stream))
   \<and> map seg_sequence (q_c (o_queue (outp (fst (snd (playlistLoop ex_stream None ex_rounds)))))) = [7, 8, 9]
   \<and> sorted_wrt (<) (map seg_sequence (q_c (o_queue (outp (fst (snd (playlistLoop ex_stream None ex_rounds)))))))
   \<and> distinct (map seg_sequence (q_c (o_queue (outp (fst (snd (playlistLoop ex_stream None ex_rounds)))))))"
proof -
  have h: "queue_inv (o_queue (outp ex_stream))"
    by code_simp
  have e: "map seg_sequence (q_c (o_queue (outp (fst (snd (playlistLoop ex_stream None ex_rounds)))))) = [7, 8, 9]"
    by code_simp
  from C1_enqueued_sequences_strictly_increasing [OF h, of None ex_rounds]
  have "sorted_wrt (<) (map seg_sequence (q_c (o_queue (outp (fst (snd (playlistLoop ex_stream None ex_rounds)))))))
      \<and> distinct (map seg_sequence (q_c (o_queue (outp (fst (snd (playlistLoop ex_stream None ex_rounds)))))))"
    by blast
  with h e show ?thesis by blast
qed

subsection \<open>The header pass\<close>


























subsection \<open>Downloading one segment\<close>

lemma transfer_copy_fails:
  assumes "a_copy a = Some (k, e)"
  shows "fst (snd (transfer s seg a body fl)) = s"
    and "SingleFile (d s) \<Longrightarrow> Seek (file_write fl (take k body)) (o_offset (outp s)) (a_seek a) = Inr f2 \<Longrightarrow>
           transfer s seg a body fl = (Some e, s, f2)"
    and "SingleFile (d s) \<Longrightarrow> Seek (file_write fl (take k body)) (o_offset (outp s)) (a_seek a) = Inl e2 \<Longrightarrow>
           transfer s seg a body fl = (Some (FatalError e False), s, file_write fl (take k body))"
    and "\<not> SingleFile (d s) \<Longrightarrow> transfer s seg a body fl = (Some e, s, file_write fl (take k body))"
  using assms by (auto simp: transfer_def Let_def split: sum.splits)

lemma setTimeout_simps [simp]:
  "d (setTimeout s seg) = d s" "name (setTimeout s seg) = name s"
  "playlist (setTimeout s seg) = playlist s"
  "o_file (outp (setTimeout s seg)) = o_file (outp s)"
  "o_offset (outp (setTimeout s seg)) = o_offset (outp s)"
  "o_sequence (outp (setTimeout s seg)) = o_sequence (outp s)"
  "o_queue (outp (setTimeout s seg)) = o_queue (outp s)"
  "o_files (outp (setTimeout s seg)) = o_files (outp s)"
  by (simp_all add: setTimeout_def)

text \<open>
  Claim C8. In single-file mode, when the transfer of a body breaks after some bytes,
  the write cursor \<open>offset\<close> and the manifest are left as they were; the output file is
  sought back to the cursor and the transfer error is returned as it is, or, when the
  seek fails, the transfer error is returned as a fatal error.
\<close>

theorem C8_partial_transfer_rewinds:
  assumes single: "SingleFile (d s)"
      and fl: "o_file (outp s) = Some fl"
      and url: "a_url a = Inr (u, host)"
      and resp: "a_resp a = Inr (expectedStatus seg, body)"
      and copy: "a_copy a = Some (k, e)"
  shows "o_offset (outp (fst (snd (downloadSegment s req seg a)))) = o_offset (outp s)
       \<and> playlist (fst (snd (downloadSegment s req seg a))) = playlist s
       \<and> (case Seek (file_write fl (take k body)) (o_offset (outp s)) (a_seek a) of
             Inr f2 \<Rightarrow>
               fst (downloadSegment s req seg a) = Some e
               \<and> o_file (outp (fst (snd (downloadSegment s req seg a)))) = Some f2
               \<and> int (f_pos f2) = o_offset (outp s)
               \<and> f_data f2 = write_at (f_pos fl) (f_data fl) (take k body)
           | Inl e2 \<Rightarrow>
               fst (downloadSegment s req seg a) = Some (FatalError e False)
               \<and> is_fatalError (the (fst (downloadSegment s req seg a))))"
proof (cases "Seek (file_write fl (take k body)) (o_offset (outp s)) (a_seek a)")
  case (Inl e2)
  have "transfer (setTimeout s seg) seg a body fl = (Some (FatalError e False), setTimeout s seg, file_write fl (take k body))"
    using transfer_copy_fails(3)[OF copy, of "setTimeout s seg" fl body e2] single Inl by simp
  then show ?thesis using Inl url resp fl
    by (simp add: downloadSegment_def Let_def)
next
  case (Inr f2)
  have t: "transfer (setTimeout s seg) seg a body fl = (Some e, setTimeout s seg, f2)"
    using transfer_copy_fails(2)[OF copy, of "setTimeout s seg" fl body f2] single Inr by simp
  have pos: "int (f_pos f2) = o_offset (outp s)" "f_data f2 = write_at (f_pos fl) (f_data fl) (take k body)"
    using Inr by (auto simp: Seek_def file_write_def split: option.splits if_splits)
  show ?thesis using Inr url resp fl t pos
    by (simp add: downloadSegment_def Let_def)
qed

theorem C8_witness:
  "fst (downloadSegment ex_single ex_request (ex_segment 7) (ex_broken None)) = Some (IOError ''unexpected EOF'')
   \<and> o_offset (outp (fst (snd (downloadSegment ex_single ex_request (ex_segment 7) (ex_broken None))))) = 4
   \<and> map_option f_pos (o_file (outp (fst (snd (downloadSegment ex_single ex_request (ex_segment 7) (ex_broken None)))))) = Some 4
   \<and> map_option f_data (o_file (outp (fst (snd (downloadSegment ex_single ex_request (ex_segment 7) (ex_broken None)))))) = Some ''ZZZZAA''
   \<and> fst (downloadSegment ex_single ex_request (ex_segment 7) (ex_broken (Some (IOError ''bad seek''))))
       = Some (FatalError (IOError ''unexpected EOF'') False)
   \<and> o_offset (outp (fst (snd (downloadSegment ex_single ex_request (ex_segment 7) (ex_broken (Some (IOError ''bad seek''))))))) = 4"
proof -
  let ?fl = "\<lparr>f_name = ''base.ts'', f_data = ''ZZZZ'', f_pos = 4, f_room = None\<rparr>"
  let ?e = "IOError ''unexpected EOF''"
  have single: "SingleFile (d ex_single)" by code_simp
  have fl: "o_file (outp ex_single) = Some ?fl" by code_simp
  have url: "a_url (ex_broken sk) = Inr (''http://host/seg.ts'', ''host'')" for sk
    by (simp add: ex_broken_def)
  have resp: "a_resp (ex_broken sk) = Inr (expectedStatus (ex_segment 7), ''AAAA'')" for sk
    by (simp add: ex_broken_def expectedStatus_def partialRequest_def ex_segment_def)
  have copy: "a_copy (ex_broken sk) = Some (2, ?e)" for sk
    by (simp add: ex_broken_def)
  have off: "o_offset (outp ex_single) = 4" by code_simp
  have sk1: "Seek (file_write ?fl ''AA'') 4 (a_seek (ex_broken None))
      = Inr \<lparr>f_name = ''base.ts'', f_data = ''ZZZZAA'', f_pos = 4, f_room = None\<rparr>"
    by code_simp
  have wa: "write_at 4 ''ZZZZ'' ''AA'' = ''ZZZZAA''"
    by code_simp
  have sk2: "Seek (file_write ?fl ''AA'') 4 (a_seek (ex_broken (Some (IOError ''bad seek''))))
      = Inl (IOError ''bad seek'')"
    by code_simp
  note t1 = C8_partial_transfer_rewinds [OF single fl url [of None] resp [of None] copy [of None], of ex_request]
  note t2 = C8_partial_transfer_rewinds [OF single fl url [of "Some (IOError ''bad seek'')"]
      resp [of "Some (IOError ''bad seek'')"] copy [of "Some (IOError ''bad seek'')"], of ex_request]
  from t1 have "fst (downloadSegment ex_single ex_request (ex_segment 7) (ex_broken None)) = Some ?e
     \<and> o_offset (outp (fst (snd (downloadSegment ex_single ex_request (ex_segment 7) (ex_broken None))))) = 4
     \<and> map_option f_pos (o_file (outp (fst (snd (downloadSegment ex_single ex_request (ex_segment 7) (ex_broken None)))))) = Some 4
     \<and> map_option f_data (o_file (outp (fst (snd (downloadSegment ex_single ex_request (ex_segment 7) (ex_broken None)))))) = Some ''ZZZZAA''"
    by (simp add: off sk1 wa)
  moreover from t2 have "fst (downloadSegment ex_single ex_request (ex_segment 7) (ex_broken (Some (IOError ''bad seek''))))
       = Some (FatalError ?e False)
     \<and> o_offset (outp (fst (snd (downloadSegment ex_single ex_request (ex_segment 7) (ex_broken (Some (IOError ''bad seek''))))))) = 4"
    by (simp add: off sk2)
  ultimately show ?thesis by blast
qed

lemma downloadSegment_status:
  assumes "a_url a = Inr (u, host)" and "a_resp a = Inr (status, body)"
      and "status \<noteq> expectedStatus seg"
  shows "downloadSegment s req seg a
           = (Some (httpResponseStatusError status), setTimeout s seg, prepareRequest req seg u host)"
  using assms by (simp add: downloadSegment_def Let_def)

lemma Stop_simps [simp]:
  "playlist (Stop s) = (playlist s)\<lparr>p_active := False\<rparr>" "outp (Stop s) = outp s"
  "name (Stop s) = name s" "stop (d (Stop s))" "SingleFile (d (Stop s)) = SingleFile (d s)"
  by (simp_all add: Stop_def)

text \<open>
  Claim C7. A status code from 400 to 499 other than 429 is classified as a fatal error
  (with \<open>client\<close> false); when a segment fetch meets it, \<open>processSegment\<close> returns that
  error after this one attempt, whatever attempts would follow, without any backoff
  delay, and the loop of \<open>downloadWorker\<close> returns it at once, leaving the remaining
  segments and the manifest untouched.
\<close>

theorem C7_client_status_aborts_without_retry:
  assumes st: "400 \<le> status" "status < 500" "status \<noteq> 429"
      and url: "a_url a = Inr (u, host)"
      and resp: "a_resp a = Inr (status, body)"
      and len: "seg_length seg \<noteq> 0"
      and ns: "\<not> stop (d s)"
  shows "httpResponseStatusError status = FatalError (HttpStatus status) False
       \<and> is_fatalError (httpResponseStatusError status)
       \<and> processSegment s req seg (a # as) = processSegment s req seg [a]
       \<and> fst (processSegment s req seg (a # as)) = Some (Some (httpResponseStatusError status))
       \<and> snd (snd (snd (processSegment s req seg (a # as)))) = []
       \<and> workerLoop s req err closed (seg # segs) ((a # as) # rest)
            = (Some (Some (httpResponseStatusError status)), fst (snd (processSegment s req seg [a])), [])
       \<and> outp (fst (snd (processSegment s req seg [a]))) = outp (setTimeout s seg)
       \<and> p_writer (playlist (fst (snd (processSegment s req seg [a])))) = p_writer (playlist s)
       \<and> p_file (playlist (fst (snd (processSegment s req seg [a])))) = p_file (playlist s)"
proof -
  let ?e = "httpResponseStatusError status"
  have cls: "?e = FatalError (HttpStatus status) False"
    using st by (simp add: httpResponseStatusError_def)
  have ne: "status \<noteq> expectedStatus seg"
    using st by (simp add: expectedStatus_def)
  note ds = downloadSegment_status [OF url resp ne]
  have rl: "retryLoop s req seg 0 (a # bs)
      = (Some (Some ?e), (if a_stop a then Stop (setTimeout s seg) else setTimeout s seg),
         prepareRequest req seg u host, [])" for bs
    by (simp add: ds cls)
  have ps: "processSegment s req seg (a # bs)
      = (Some (Some ?e), (if a_stop a then Stop (setTimeout s seg) else setTimeout s seg),
         prepareRequest req seg u host, [])" for bs
    using len by (simp add: processSegment_def rl del: retryLoop.simps)
  have wl: "workerLoop s req err closed (seg # segs) ((a # as) # rest)
      = (Some (Some ?e), (if a_stop a then Stop (setTimeout s seg) else setTimeout s seg), [])"
    using ns by (simp add: ps cls)
  show ?thesis
    using cls wl by (simp add: ps)
qed

theorem C7_witness:
  "processSegment ex_single ex_request (ex_segment 7) [ex_status 404, ex_ok ''AAAA'']
     = processSegment ex_single ex_request (ex_segment 7) [ex_status 404]
   \<and> fst (processSegment ex_single ex_request (ex_segment 7) [ex_status 404, ex_ok ''AAAA''])
       = Some (Some (FatalError (HttpStatus 404) False))
   \<and> fst (workerLoop ex_single ex_request None True [ex_segment 7, ex_segment 8]
            [[ex_status 404, ex_ok ''AAAA''], [ex_ok ''BB'']])
       = Some (Some (FatalError (HttpStatus 404) False))
   \<and> snd (snd (workerLoop ex_single ex_request None True [ex_segment 7, ex_segment 8]
            [[ex_status 404, ex_ok ''AAAA''], [ex_ok ''BB'']])) = []"
proof -
  have st: "(400::int) \<le> 404" "(404::int) < 500" "(404::int) \<noteq> 429" by simp_all
  have url: "a_url (ex_status 404) = Inr (''http://host/seg.ts'', ''host'')"
    by (simp add: ex_status_def)
  have resp: "a_resp (ex_status 404) = Inr (404, [])" by (simp add: ex_status_def)
  have len: "seg_length (ex_segment 7) \<noteq> 0" by (simp add: ex_segment_def)
  have ns: "\<not> stop (d ex_single)" by code_simp
  have c: "httpResponseStatusError 404 = FatalError (HttpStatus 404) False"
    by code_simp
  note t = C7_client_status_aborts_without_retry [OF st url resp len ns,
       of ex_request "[ex_ok ''AAAA'']" None True "[ex_segment 8]" "[[ex_ok ''BB'']]", unfolded c]
  from t have p3: "processSegment ex_single ex_request (ex_segment 7) [ex_status 404, ex_ok ''AAAA'']
     = processSegment ex_single ex_request (ex_segment 7) [ex_status 404]"
    by blast
  from t have p4: "fst (processSegment ex_single ex_request (ex_segment 7) [ex_status 404, ex_ok ''AAAA''])
       = Some (Some (FatalError (HttpStatus 404) False))"
    by blast
  from t have w: "workerLoop ex_single ex_request None True [ex_segment 7, ex_segment 8]
            [[ex_status 404, ex_ok ''AAAA''], [ex_ok ''BB'']]
       = (Some (Some (FatalError (HttpStatus 404) False)),
          fst (snd (processSegment ex_single ex_request (ex_segment 7) [ex_status 404])), [])"
    by blast
  show ?thesis
    unfolding w fst_conv snd_conv using p3 p4 by blast
qed

subsection \<open>Segments stored in one file\<close>

lemma pl_WriteString_ok:
  "p_writer p = Some w \<Longrightarrow> w_err w = None \<Longrightarrow>
     pl_WriteString p str = (None, p\<lparr>p_writer := Some (w\<lparr>w_buf := w_buf w @ str\<rparr>)\<rparr>)"
  by (simp add: pl_WriteString_def WriteString_def)

lemma pl_writeLine_ok:
  "p_writer p = Some w \<Longrightarrow> w_err w = None \<Longrightarrow> line \<noteq> [] \<Longrightarrow>
     pl_writeLine p line = (None, p\<lparr>p_writer := Some (w\<lparr>w_buf := w_buf w @ line @ [NL]\<rparr>)\<rparr>)"
  by (simp add: pl_writeLine_def writeLine_def WriteString_def)

lemma checkMissingSegments_ok:
  assumes "p_writer (playlist s) = Some w" and "w_err w = None"
  shows "checkMissingSegments s seg =
     (None, s\<lparr>playlist := (playlist s)\<lparr>p_writer :=
                 Some (w\<lparr>w_buf := w_buf w @ gap_note (o_sequence (outp s)) seg\<rparr>)\<rparr>,
              outp := (outp s)\<lparr>o_sequence := seg_sequence seg\<rparr>\<rparr>)"
proof (cases "o_sequence (outp s) \<noteq> 0 \<and> wrap64 (o_sequence (outp s) + 1) \<noteq> seg_sequence seg")
  case True
  then show ?thesis
    using assms
    by (simp add: checkMissingSegments_def Let_def gap_note_def pl_WriteString_def WriteString_def)
next
  case False
  have "(playlist s)\<lparr>p_writer := Some (w\<lparr>w_buf := w_buf w\<rparr>)\<rparr> = playlist s"
    using assms by simp
  then show ?thesis
    using False assms
    by (auto simp: checkMissingSegments_def Let_def gap_note_def)
qed

lemma path_Base_nonempty: "path_Base p \<noteq> []"
  by (simp add: path_Base_def Let_def)

lemma flush_ok:
  assumes "p_writer p = Some w" and "w_err w = None" and "w_buf w \<noteq> []"
      and "p_file p = Some pf" and "f_room pf = None"
  shows "flush p None = (None, p\<lparr>p_writer := Some (w\<lparr>w_buf := []\<rparr>), p_file := Some (file_write pf (w_buf w))\<rparr>)"
  using assms by (simp add: flush_def Flush_def fatal_def)



lemma wrap64_id: "- (2 ^ 63) \<le> x \<Longrightarrow> x < 2 ^ 63 \<Longrightarrow> wrap64 x = x"
  by (simp add: wrap64_def)


lemma sizes_Cons [simp]: "sizes (b # bs) = int (length b) # sizes bs"
  by (simp add: sizes_def)

lemma sizes_Nil [simp]: "sizes [] = []"
  by (simp add: sizes_def)

lemma expected_manifest_Nil [simp]: "expected_manifest fname prev off [] [] = []"
  by (simp add: expected_manifest_def)

lemma expected_manifest_Cons [simp]:
  "expected_manifest fname prev off (seg # segs) (b # bs) =
     byterange_entry fname (prev, seg, b, off)
       @ expected_manifest fname (seg_sequence seg) (off + int (length b)) segs bs"
  by (simp add: expected_manifest_def)





subsection \<open>Byte ranges in the segment pass\<close>

lemma ParseInt_chars:
  assumes "ParseInt str = Inr n"
  shows "CHR ''@'' \<notin> set str" and "CHR '':'' \<notin> set str" and "str \<noteq> []"
proof -
  let ?ds = "(if str \<noteq> [] \<and> (hd str = CHR ''-'' \<or> hd str = CHR ''+'') then tl str else str)"
  from assms have dig: "list_all is_digit ?ds" and ne: "?ds \<noteq> []"
    by (auto simp: ParseInt_def Let_def split: if_splits)
  from ne show "str \<noteq> []" by (auto split: if_splits)
  have sub: "set str \<subseteq> set ?ds \<union> {CHR ''-'', CHR ''+''}"
    by (cases str) auto
  have nd: "\<not> is_digit (CHR ''@'')" "\<not> is_digit (CHR '':'')"
    by (simp_all add: is_digit_def)
  from dig have "\<forall>x\<in>set ?ds. is_digit x" by (simp only: list_all_iff)
  with nd have "CHR ''@'' \<notin> set ?ds" "CHR '':'' \<notin> set ?ds"
    by blast+
  with sub show "CHR ''@'' \<notin> set str" and "CHR '':'' \<notin> set str" by auto
qed

lemma splitPair_absent: "c \<notin> set str \<Longrightarrow> splitPair str c = (str, [])"
proof -
  assume "c \<notin> set str"
  then have "takeWhile (\<lambda>x. x \<noteq> c) str = str" by (auto simp: takeWhile_eq_all_conv)
  then have "length (takeWhile (\<lambda>x. x \<noteq> c) str) = length str" by (rule arg_cong)
  then show ?thesis unfolding splitPair_def Let_def by simp
qed

lemma splitPair_byterange:
  "splitPair (''EXT-X-BYTERANGE:'' @ v) tagSeparator = (''EXT-X-BYTERANGE'', v)"
  by (simp add: splitPair_def tagSeparator_def)

lemma segmentTag_byterange_no_offset:
  assumes "ParseInt lstr = Inr len"
  shows "segmentTag (''#EXT-X-BYTERANGE:'' @ lstr) (loc, s) =
     (if l_offset loc = - 1
      then (Some (FatalError (InvalidTag ''EXT-X-BYTERANGE'' lstr errOffsetFirstSegment) False), [],
            loc\<lparr>l_length := len\<rparr>, s)
      else (None, [], loc\<lparr>l_length := len\<rparr>, s))"
proof -
  have sp: "splitPair lstr (CHR ''@'') = (lstr, [])"
    using ParseInt_chars(1) [OF assms] by (rule splitPair_absent)
  have k: "splitPair (tl (''#EXT-X-BYTERANGE:'' @ lstr)) tagSeparator = (''EXT-X-BYTERANGE'', lstr)"
    using splitPair_byterange [of lstr] by simp
  show ?thesis
    unfolding segmentTag_def k by (simp add: sp assms)
qed

lemma segmentLine_keeps_unknown:
  assumes "offset_unknown loc" and "\<not> is_byterange line"
      and "segmentLine line (loc, s) = (err, loc', s')"
  shows "offset_unknown loc'"
proof (cases "line = []")
  case True
  with assms show ?thesis by (simp add: segmentLine_def)
next
  case False
  show ?thesis
  proof (cases "hd line = CHR ''#''")
    case uri: False
    with False assms show ?thesis
      by (auto simp: segmentLine_def segmentURI_def Let_def offset_unknown_def split: if_splits)
  next
    case True
    show ?thesis
    proof (cases "HasPrefix line tagPrefix")
      case nt: False
      with False True assms show ?thesis
        by (auto simp: segmentLine_def offset_unknown_def)
    next
      case tag: True
      with False True assms(2) have k: "fst (splitPair (tl line) tagSeparator) \<noteq> ''EXT-X-BYTERANGE''"
        by (simp add: is_byterange_def)
      obtain e l1 loc1 s1 where st: "segmentTag line (loc, s) = (e, l1, loc1, s1)"
        by (cases "segmentTag line (loc, s)")
      have "offset_unknown loc1"
        using st k assms(1)
        by (auto simp: segmentTag_def offset_unknown_def split: prod.splits sum.splits if_splits)
      with False True tag st assms(3) show ?thesis
        by (auto simp: segmentLine_def offset_unknown_def split: option.splits)
    qed
  qed
qed

lemma segmentLine_error_kind:
  assumes "\<not> is_byterange line" and "segmentLine line (loc, s) = (Some e, x)"
  shows "\<exists>k v c. e = FatalError (InvalidTag k v c) False \<and> k \<noteq> ''EXT-X-BYTERANGE''"
proof -
  from assms(2) have ne: "line \<noteq> []" and h: "hd line = CHR ''#''" and t: "HasPrefix line tagPrefix"
    by (auto simp: segmentLine_def split: if_splits prod.splits option.splits)
  with assms(1) have k: "fst (splitPair (tl line) tagSeparator) \<noteq> ''EXT-X-BYTERANGE''"
    by (simp add: is_byterange_def)
  obtain e1 l1 loc1 s1 where st: "segmentTag line (loc, s) = (e1, l1, loc1, s1)"
    by (cases "segmentTag line (loc, s)")
  with assms(2) ne h t have "e1 = Some e"
    by (auto simp: segmentLine_def split: option.splits)
  with st k show ?thesis
    by (auto simp: segmentTag_def split: prod.splits sum.splits if_splits)
qed

lemma segmentLine_byterange_unknown:
  assumes "ParseInt lstr = Inr len" and "offset_unknown loc"
  shows "\<exists>x. segmentLine (''#EXT-X-BYTERANGE:'' @ lstr) (loc, s)
           = (Some (FatalError (InvalidTag ''EXT-X-BYTERANGE'' lstr errOffsetFirstSegment) False), x)"
  using segmentTag_byterange_no_offset [OF assms(1), of loc s] assms(2)
  by (simp add: segmentLine_def offset_unknown_def HasPrefix_def tagPrefix_def)

lemma segmentsLoop_more:
  "rest \<noteq> [] \<Longrightarrow> segmentsLoop x (Scanner t rest f e) =
     (case segmentLine t x of
        (Some er, x') \<Rightarrow> (Some er, x', Scanner t rest f e)
      | (None, x') \<Rightarrow> segmentsLoop x' (Scanner (hd rest) (tl rest) f e))"
  by (cases rest) (auto split: prod.splits option.splits)

lemma scanner_at_more: "rest \<noteq> [] \<Longrightarrow> Scanner (hd rest) (tl rest) f None = scanner_at rest f"
  by (cases rest) auto

lemma segmentsLoop_first_byterange:
  assumes "list_all (\<lambda>l. \<not> is_byterange l) pre" and "ParseInt lstr = Inr len"
      and "offset_unknown loc"
  shows "\<exists>e x sc'. segmentsLoop (loc, s) (scanner_at (pre @ (''#EXT-X-BYTERANGE:'' @ lstr) # post) f)
            = (Some e, x, sc') \<and> first_range_error lstr e"
  using assms
proof (induction pre arbitrary: loc s)
  case Nil
  from segmentLine_byterange_unknown [OF Nil(2,3), of s]
  obtain x where sl: "segmentLine (''#EXT-X-BYTERANGE:'' @ lstr) (loc, s)
           = (Some (FatalError (InvalidTag ''EXT-X-BYTERANGE'' lstr errOffsetFirstSegment) False), x)"
    by blast
  have "segmentsLoop (loc, s) (Scanner (''#EXT-X-BYTERANGE:'' @ lstr) post f None)
      = (Some (FatalError (InvalidTag ''EXT-X-BYTERANGE'' lstr errOffsetFirstSegment) False), x,
         Scanner (''#EXT-X-BYTERANGE:'' @ lstr) post f None)"
    by (cases post) (simp_all only: segmentsLoop.simps sl prod.case option.case)
  then show ?case
    unfolding append_Nil scanner_at.simps first_range_error_def by blast
next
  case (Cons p ps)
  let ?rest = "ps @ (''#EXT-X-BYTERANGE:'' @ lstr) # post"
  have ne: "?rest \<noteq> []" by simp
  from Cons.prems(1) have np: "\<not> is_byterange p" and nps: "list_all (\<lambda>l. \<not> is_byterange l) ps"
    by simp_all
  obtain er loc1 s1 where sl: "segmentLine p (loc, s) = (er, loc1, s1)"
    by (cases "segmentLine p (loc, s)")
  show ?case
  proof (cases er)
    case None
    have u: "offset_unknown loc1"
      using Cons.prems(3) np sl by (rule segmentLine_keeps_unknown)
    from Cons.IH [OF nps Cons.prems(2) u, of s1]
    obtain e x sc' where "segmentsLoop (loc1, s1) (scanner_at ?rest f) = (Some e, x, sc')"
      and "first_range_error lstr e"
      by blast
    then show ?thesis
      using sl None ne by (simp add: segmentsLoop_more scanner_at_more del: segmentsLoop.simps)
  next
    case (Some e)
    with sl np have "first_range_error lstr e"
      using segmentLine_error_kind [of p loc s e "(loc1, s1)"] by (auto simp: first_range_error_def)
    then show ?thesis
      using sl Some ne by (simp add: segmentsLoop_more del: segmentsLoop.simps)
  qed
qed

lemma keeps_refl: "keeps x x"
  by (simp add: keeps_def)

lemma keeps_trans: "keeps x y \<Longrightarrow> keeps y z \<Longrightarrow> keeps x z"
  by (simp add: keeps_def)

lemma segmentTag_other:
  assumes "segment_other line" and "line \<noteq> []" and "HasPrefix line tagPrefix"
  shows "\<exists>l' loc' s'. segmentTag line (loc, s) = (None, l', loc', s') \<and> keeps (loc, s) (loc', s')"
proof -
  obtain k v where kv: "splitPair (tl line) tagSeparator = (k, v)"
    by (cases "splitPair (tl line) tagSeparator")
  from assms kv have k: "k \<noteq> ''EXT-X-BYTERANGE''" "k \<noteq> ''EXT-X-GAP''"
    by (simp_all add: segment_other_def)
  show ?thesis
  proof (cases "k = ''EXTINF''")
    case True
    obtain v1 title where s1: "splitPair v (CHR '','') = (v1, title)" by (cases "splitPair v (CHR '','')")
    obtain v2 frac where s2: "splitPair v1 (CHR ''.'') = (v2, frac)" by (cases "splitPair v1 (CHR ''.'')")
    from assms kv True s1 s2 obtain n where "Atoi v2 = Inr n"
      by (cases "Atoi v2") (auto simp: segment_other_def)
    with True show ?thesis
      unfolding segmentTag_def kv by (simp add: s1 s2 keeps_def)
  next
    case False
    with k show ?thesis
      unfolding segmentTag_def kv by (simp add: keeps_def)
  qed
qed

lemma segmentLine_other:
  assumes "segment_other line"
  shows "\<exists>y. segmentLine line x = (None, y) \<and> keeps x y"
proof -
  obtain loc s where x: "x = (loc, s)" by (cases x)
  show ?thesis
  proof (cases "line = []")
    case True
    then show ?thesis by (simp add: segmentLine_def keeps_refl)
  next
    case False
    with assms have hash: "hd line = CHR ''#''" by (simp add: segment_other_def)
    show ?thesis
    proof (cases "HasPrefix line tagPrefix")
      case True
      from segmentTag_other [OF assms False True, of loc s]
      obtain l' loc' s' where "segmentTag line (loc, s) = (None, l', loc', s')"
        and "keeps (loc, s) (loc', s')"
        by blast
      with False hash True x show ?thesis by (simp add: segmentLine_def keeps_def)
    next
      case np: False
      with False hash x show ?thesis by (simp add: segmentLine_def keeps_def)
    qed
  qed
qed

lemma segmentsLoop_step:
  assumes "rest \<noteq> []"
  shows "segmentsLoop x (scanner_at (l # rest) f) =
     (case segmentLine l x of
        (Some er, x') \<Rightarrow> (Some er, x', Scanner l rest f None)
      | (None, x') \<Rightarrow> segmentsLoop x' (scanner_at rest f))"
  using assms by (cases rest) (simp_all split: prod.splits option.splits)

lemma segmentsLoop_other:
  assumes "list_all segment_other ls" and "rest \<noteq> []"
  shows "\<exists>y. segmentsLoop x (scanner_at (ls @ rest) f) = segmentsLoop y (scanner_at rest f) \<and> keeps x y"
  using assms
proof (induction ls arbitrary: x)
  case Nil
  show ?case by (intro exI [of _ x]) (simp add: keeps_refl)
next
  case (Cons l ls)
  from Cons.prems have o: "segment_other l" and os: "list_all segment_other ls" by simp_all
  from segmentLine_other [OF o, of x] obtain y where sl: "segmentLine l x = (None, y)" and k: "keeps x y"
    by blast
  from Cons.IH [OF os Cons.prems(2), of y] obtain z
    where lp: "segmentsLoop y (scanner_at (ls @ rest) f) = segmentsLoop z (scanner_at rest f)"
      and k2: "keeps y z"
    by blast
  have ne: "ls @ rest \<noteq> []" using Cons.prems(2) by simp
  have "segmentsLoop x (scanner_at ((l # ls) @ rest) f) = segmentsLoop z (scanner_at rest f)"
    using segmentsLoop_step [OF ne, of x l f] sl lp by simp
  moreover have "keeps x z" using k k2 by (rule keeps_trans)
  ultimately show ?case by blast
qed

lemma splitPair_at:
  assumes "c \<notin> set a" and "a \<noteq> []"
  shows "splitPair (a @ c # b) c = (a, b)"
proof -
  have "takeWhile (\<lambda>x. x \<noteq> c) (a @ c # b) = a"
    using assms(1) by (induction a) auto
  then have "length (takeWhile (\<lambda>x. x \<noteq> c) (a @ c # b)) = length a" by (rule arg_cong)
  then show ?thesis
    unfolding splitPair_def Let_def using assms(2) by simp
qed

lemma segmentLine_range_explicit:
  assumes "ParseInt lstr = Inr n" and "ParseInt ostr = Inr off"
  shows "segmentLine (''#EXT-X-BYTERANGE:'' @ lstr @ ''@'' @ ostr) (loc, s)
           = (None, loc\<lparr>l_length := n, l_offset := off\<rparr>, s)"
proof -
  let ?line = "''#EXT-X-BYTERANGE:'' @ lstr @ ''@'' @ ostr"
  have sp: "splitPair (lstr @ CHR ''@'' # ostr) (CHR ''@'') = (lstr, ostr)"
    using ParseInt_chars(1) [OF assms(1)] ParseInt_chars(3) [OF assms(1)] by (rule splitPair_at)
  have k: "splitPair (tl ?line) tagSeparator = (''EXT-X-BYTERANGE'', lstr @ ''@'' @ ostr)"
    using splitPair_byterange [of "lstr @ ''@'' @ ostr"] by simp
  have ne: "ostr \<noteq> []" using assms(2) by (rule ParseInt_chars(3))
  have t: "segmentTag ?line (loc, s) = (None, [], loc\<lparr>l_length := n, l_offset := off\<rparr>, s)"
    unfolding segmentTag_def k by (simp add: sp assms ne)
  have p: "HasPrefix ?line tagPrefix" by (simp add: HasPrefix_def tagPrefix_def)
  show ?thesis
    using t p by (simp add: segmentLine_def writeLine_Builder_def)
qed

lemma segmentLine_range_omitted:
  assumes "ParseInt lstr = Inr m"
  shows "segmentLine (''#EXT-X-BYTERANGE:'' @ lstr) (loc, s) =
     (if l_offset loc = - 1
      then (Some (FatalError (InvalidTag ''EXT-X-BYTERANGE'' lstr errOffsetFirstSegment) False),
            loc\<lparr>l_length := m\<rparr>, s)
      else (None, loc\<lparr>l_length := m\<rparr>, s))"
  using segmentTag_byterange_no_offset [OF assms, of loc s]
  by (simp add: segmentLine_def HasPrefix_def tagPrefix_def writeLine_Builder_def)

lemma segmentLine_uri:
  "is_uri u \<Longrightarrow> segmentLine u x = (None, segmentURI u x)"
  by (simp add: is_uri_def segmentLine_def)

lemma segmentURI_locals:
  assumes "Titles (d s) = []"
  shows "l_offset (fst (segmentURI u (loc, s))) = running (l_length loc) (l_offset loc)"
    and "l_length (fst (segmentURI u (loc, s))) = - 1"
    and "l_sequence (fst (segmentURI u (loc, s))) = wrap64 (l_sequence loc + 1)"
    and "d (snd (segmentURI u (loc, s))) = d s"
  using assms by (simp_all add: segmentURI_def Let_def running_def)

lemma segmentURI_ranges:
  assumes "Titles (d s) = []" and "q_sequence (o_queue (outp s)) < l_sequence loc"
  shows "ranges (snd (segmentURI u (loc, s))) = ranges s @ [(u, l_length loc, l_offset loc)]"
    and "q_sequence (o_queue (outp (snd (segmentURI u (loc, s))))) = l_sequence loc"
  using assms by (simp_all add: segmentURI_def Let_def ranges_def)

text \<open>
  The segment pass from a byte range with an explicit offset to the lines after the
  segment it belongs to.
\<close>

lemma segmentsLoop_after_range:
  assumes p1: "ParseInt lstr = Inr n" and po: "ParseInt ostr = Inr off"
      and m1: "list_all segment_other mid1" and u: "is_uri u" and m2: "list_all segment_other mid2"
      and nt: "Titles (d s) = []" and ne: "R \<noteq> []"
  shows "\<exists>loc' s'. segmentsLoop (loc, s)
             (scanner_at ((''#EXT-X-BYTERANGE:'' @ lstr @ ''@'' @ ostr) # mid1 @ u # mid2 @ R) f)
           = segmentsLoop (loc', s') (scanner_at R f)
         \<and> l_offset loc' = running n off \<and> l_sequence loc' = wrap64 (l_sequence loc + 1)
         \<and> d s' = d s
         \<and> (q_sequence (o_queue (outp s)) < l_sequence loc \<longrightarrow>
              ranges s' = ranges s @ [(u, n, off)] \<and> q_sequence (o_queue (outp s')) = l_sequence loc)"
proof -
  let ?tag = "''#EXT-X-BYTERANGE:'' @ lstr @ ''@'' @ ostr"
  let ?loc1 = "loc\<lparr>l_length := n, l_offset := off\<rparr>"
  have n1: "mid1 @ u # mid2 @ R \<noteq> []" and n2: "u # mid2 @ R \<noteq> []" and n3: "mid2 @ R \<noteq> []"
    using ne by simp_all
  have a: "segmentsLoop (loc, s) (scanner_at (?tag # mid1 @ u # mid2 @ R) f)
      = segmentsLoop (?loc1, s) (scanner_at (mid1 @ u # mid2 @ R) f)"
    unfolding segmentsLoop_step [OF n1] segmentLine_range_explicit [OF p1 po] by simp
  from segmentsLoop_other [OF m1 n2, of "(?loc1, s)" f]
  obtain loc2 s2 where b: "segmentsLoop (?loc1, s) (scanner_at (mid1 @ u # mid2 @ R) f)
      = segmentsLoop (loc2, s2) (scanner_at (u # mid2 @ R) f)"
    and k2: "keeps (?loc1, s) (loc2, s2)"
    by (metis surj_pair)
  from k2 have v2: "l_length loc2 = n" "l_offset loc2 = off" "l_sequence loc2 = l_sequence loc"
    "outp s2 = outp s" "d s2 = d s"
    by (simp_all add: keeps_def)
  obtain loc3 s3 where su: "segmentURI u (loc2, s2) = (loc3, s3)" by (cases "segmentURI u (loc2, s2)")
  have nt2: "Titles (d s2) = []" using nt v2 by simp
  have v3: "l_offset loc3 = running n off" "l_length loc3 = - 1"
    "l_sequence loc3 = wrap64 (l_sequence loc + 1)" "d s3 = d s"
    using segmentURI_locals [OF nt2, of u loc2] su v2 by simp_all
  have q3: "ranges s3 = ranges s @ [(u, n, off)] \<and> q_sequence (o_queue (outp s3)) = l_sequence loc"
    if "q_sequence (o_queue (outp s)) < l_sequence loc"
    using segmentURI_ranges [OF nt2, of loc2 u] su v2 that by (simp add: ranges_def)
  have c: "segmentsLoop (loc2, s2) (scanner_at (u # mid2 @ R) f)
      = segmentsLoop (loc3, s3) (scanner_at (mid2 @ R) f)"
    unfolding segmentsLoop_step [OF n3] segmentLine_uri [OF u] su by simp
  from segmentsLoop_other [OF m2 ne, of "(loc3, s3)" f]
  obtain loc4 s4 where dd: "segmentsLoop (loc3, s3) (scanner_at (mid2 @ R) f)
      = segmentsLoop (loc4, s4) (scanner_at R f)"
    and k4: "keeps (loc3, s3) (loc4, s4)"
    by (metis surj_pair)
  from k4 have v4: "l_length loc4 = l_length loc3" "l_offset loc4 = l_offset loc3"
    "l_sequence loc4 = l_sequence loc3" "outp s4 = outp s3" "d s4 = d s3"
    by (simp_all add: keeps_def)
  have e: "segmentsLoop (loc, s) (scanner_at (?tag # mid1 @ u # mid2 @ R) f)
      = segmentsLoop (loc4, s4) (scanner_at R f)"
    by (simp only: a b c dd)
  have f1: "l_offset loc4 = running n off" "l_sequence loc4 = wrap64 (l_sequence loc + 1)" "d s4 = d s"
    using v3 v4 by simp_all
  have f2: "q_sequence (o_queue (outp s)) < l_sequence loc \<longrightarrow>
              ranges s4 = ranges s @ [(u, n, off)] \<and> q_sequence (o_queue (outp s4)) = l_sequence loc"
    using q3 v4 by (simp add: ranges_def)
  from e f1 f2 show ?thesis by blast
qed

text \<open>
  Claim C4, amended. The offset of an \<open>EXT-X-BYTERANGE\<close> tag may be omitted exactly when
  the running offset of the segment pass is not \<open>-1\<close>. It is \<open>-1\<close> at the start of every
  segment pass, so the first \<open>EXT-X-BYTERANGE\<close> tag of a fetch, also in its first segment,
  cannot omit the offset: \<open>parseSegments\<close> returns a fatal error. After a segment whose tag
  gave the length \<open>n\<close> and the explicit offset \<open>off\<close> the running offset is \<open>off + n\<close>
  (\<open>off\<close> when \<open>n\<close> is not positive): the tag of the next segment may omit the offset and the
  segment takes the running offset, unless that value is \<open>-1\<close> again, as after \<open>10@-11\<close>,
  in which case the pass fails with the fatal error that wraps \<open>errOffsetFirstSegment\<close>.
  No title filter is configured, and the lines between are other lines of the section.
\<close>

theorem C4_omitted_offset_needs_running_offset:
  fixes lstr1 ostr lstr2 u1 u2 :: string and mid1 mid2 mid3 pre post :: "string list"
  defines "tag1 \<equiv> ''#EXT-X-BYTERANGE:'' @ lstr1 @ ''@'' @ ostr"
  defines "tag2 \<equiv> ''#EXT-X-BYTERANGE:'' @ lstr2"
  assumes p1: "ParseInt lstr1 = Inr n" and po: "ParseInt ostr = Inr off"
      and p2: "ParseInt lstr2 = Inr m"
      and m1: "list_all segment_other mid1" and u1: "is_uri u1"
      and m2: "list_all segment_other mid2"
      and m3: "list_all segment_other mid3" and u2: "is_uri u2"
      and nt: "Titles (d s) = []"
  shows "(list_all (\<lambda>l. \<not> is_byterange l) pre \<longrightarrow>
            (\<exists>e. fst (parseSegments s (scanner_at (pre @ tag2 # post) f)) = Some e
               \<and> is_fatalError e \<and> first_range_error lstr2 e))
       \<and> (running n off = - 1 \<longrightarrow>
            fst (segmentsLoop (loc, s) (scanner_at (tag1 # mid1 @ u1 # mid2 @ tag2 # post) f))
              = Some (FatalError (InvalidTag ''EXT-X-BYTERANGE'' lstr2 errOffsetFirstSegment) False))
       \<and> (running n off \<noteq> - 1 \<longrightarrow>
            fst (segmentsLoop (loc, s) (scanner_at (tag1 # mid1 @ u1 # mid2 @ tag2 # mid3 @ [u2]) f)) = None
            \<and> (q_sequence (o_queue (outp s)) < l_sequence loc
                 \<and> - (2 ^ 63) \<le> l_sequence loc \<and> l_sequence loc < 2 ^ 63 - 1 \<longrightarrow>
                 ranges (snd (fst (snd (segmentsLoop (loc, s)
                     (scanner_at (tag1 # mid1 @ u1 # mid2 @ tag2 # mid3 @ [u2]) f)))))
                   = ranges s @ [(u1, n, off), (u2, m, running n off)]))"
proof (intro conjI impI)
  assume pre: "list_all (\<lambda>l. \<not> is_byterange l) pre"
  let ?loc = "\<lparr>l_sequence = p_sequence (playlist s), l_newSegments = 0, l_length = - 1,
               l_offset = - 1, l_duration = 0, l_title = [], l_comments = []\<rparr>"
  have u: "offset_unknown ?loc" by (simp add: offset_unknown_def)
  from segmentsLoop_first_byterange [OF pre p2 u, of s post f]
  obtain e x sc' where
    l: "segmentsLoop (?loc, s) (scanner_at (pre @ tag2 # post) f) = (Some e, x, sc')"
    and fe: "first_range_error lstr2 e"
    unfolding tag2_def by blast
  from fe have "is_fatalError e" by (auto simp: first_range_error_def)
  moreover have "fst (parseSegments s (scanner_at (pre @ tag2 # post) f)) = Some e"
    unfolding parseSegments_def l by (cases x) simp
  ultimately show "\<exists>e. fst (parseSegments s (scanner_at (pre @ tag2 # post) f)) = Some e
               \<and> is_fatalError e \<and> first_range_error lstr2 e"
    using fe by blast
next
  assume r: "running n off = - 1"
  have ne: "tag2 # post \<noteq> []" by simp
  from segmentsLoop_after_range [OF p1 po m1 u1 m2 nt ne, of loc f]
  obtain loc' s' where a: "segmentsLoop (loc, s) (scanner_at (tag1 # mid1 @ u1 # mid2 @ tag2 # post) f)
           = segmentsLoop (loc', s') (scanner_at (tag2 # post) f)"
    and o: "l_offset loc' = running n off"
    unfolding tag1_def by blast
  have sl: "segmentLine tag2 (loc', s')
      = (Some (FatalError (InvalidTag ''EXT-X-BYTERANGE'' lstr2 errOffsetFirstSegment) False),
         loc'\<lparr>l_length := m\<rparr>, s')"
    unfolding tag2_def segmentLine_range_omitted [OF p2] using o r by simp
  have "fst (segmentsLoop (loc', s') (scanner_at (tag2 # post) f))
      = Some (FatalError (InvalidTag ''EXT-X-BYTERANGE'' lstr2 errOffsetFirstSegment) False)"
    by (cases post) (simp_all add: sl)
  then show "fst (segmentsLoop (loc, s) (scanner_at (tag1 # mid1 @ u1 # mid2 @ tag2 # post) f))
              = Some (FatalError (InvalidTag ''EXT-X-BYTERANGE'' lstr2 errOffsetFirstSegment) False)"
    unfolding a .
next
  assume r: "running n off \<noteq> - 1"
  let ?run = "segmentsLoop (loc, s) (scanner_at (tag1 # mid1 @ u1 # mid2 @ tag2 # mid3 @ [u2]) f)"
  have ne: "tag2 # mid3 @ [u2] \<noteq> []" and ne2: "mid3 @ [u2] \<noteq> []" and ne3: "[u2] \<noteq> []" by simp_all
  from segmentsLoop_after_range [OF p1 po m1 u1 m2 nt ne, of loc f]
  obtain loc' s' where a: "?run = segmentsLoop (loc', s') (scanner_at (tag2 # mid3 @ [u2]) f)"
    and o: "l_offset loc' = running n off" and sq: "l_sequence loc' = wrap64 (l_sequence loc + 1)"
    and ds: "d s' = d s"
    and q: "q_sequence (o_queue (outp s)) < l_sequence loc \<longrightarrow>
              ranges s' = ranges s @ [(u1, n, off)] \<and> q_sequence (o_queue (outp s')) = l_sequence loc"
    unfolding tag1_def by blast
  have sl: "segmentLine tag2 (loc', s') = (None, loc'\<lparr>l_length := m\<rparr>, s')"
    unfolding tag2_def segmentLine_range_omitted [OF p2] using o r by simp
  have b: "segmentsLoop (loc', s') (scanner_at (tag2 # mid3 @ [u2]) f)
      = segmentsLoop (loc'\<lparr>l_length := m\<rparr>, s') (scanner_at (mid3 @ [u2]) f)"
    unfolding segmentsLoop_step [OF ne2] sl by simp
  from segmentsLoop_other [OF m3 ne3, of "(loc'\<lparr>l_length := m\<rparr>, s')" f]
  obtain loc6 s6 where c: "segmentsLoop (loc'\<lparr>l_length := m\<rparr>, s') (scanner_at (mid3 @ [u2]) f)
      = segmentsLoop (loc6, s6) (scanner_at [u2] f)"
    and k: "keeps (loc'\<lparr>l_length := m\<rparr>, s') (loc6, s6)"
    by (metis surj_pair)
  from k have v6: "l_length loc6 = m" "l_offset loc6 = l_offset loc'" "l_sequence loc6 = l_sequence loc'"
    "outp s6 = outp s'" "d s6 = d s'"
    by (simp_all add: keeps_def)
  have dd: "segmentsLoop (loc6, s6) (scanner_at [u2] f) = (None, segmentURI u2 (loc6, s6), Scanner [] [] f f)"
    by (simp add: segmentLine_uri [OF u2])
  have run: "?run = (None, segmentURI u2 (loc6, s6), Scanner [] [] f f)"
    by (simp only: a b c dd)
  show "fst ?run = None" unfolding run by simp
  show "ranges (snd (fst (snd ?run))) = ranges s @ [(u1, n, off), (u2, m, running n off)]"
    if new: "q_sequence (o_queue (outp s)) < l_sequence loc
                 \<and> - (2 ^ 63) \<le> l_sequence loc \<and> l_sequence loc < 2 ^ 63 - 1"
  proof -
    from new q have q1: "ranges s' = ranges s @ [(u1, n, off)]"
      and q2: "q_sequence (o_queue (outp s')) = l_sequence loc"
      by simp_all
    have w: "wrap64 (l_sequence loc + 1) = l_sequence loc + 1"
      using new by (simp add: wrap64_id)
    have lt: "q_sequence (o_queue (outp s6)) < l_sequence loc6"
      using v6 q2 sq w by simp
    have nt6: "Titles (d s6) = []" using nt ds v6 by simp
    have "ranges (snd (segmentURI u2 (loc6, s6))) = ranges s6 @ [(u2, l_length loc6, l_offset loc6)]"
      using nt6 lt by (rule segmentURI_ranges)
    moreover have "ranges s6 = ranges s'" using v6 by (simp add: ranges_def)
    ultimately show ?thesis
      unfolding run using q1 v6 o by simp
  qed
qed

theorem C4_witness:
  "(\<exists>e. fst (parseSegments ex_stream
               (scanner_at [''#EXTINF:9.5,'', ''#EXT-X-BYTERANGE:50'', ''all.ts''] None)) = Some e
          \<and> is_fatalError e)
   \<and> fst (segmentsLoop (ex_locals (- 1), ex_stream)
        (scanner_at [''#EXT-X-BYTERANGE:100@0'', ''all.ts'', ''#EXTINF:9.5,'', ''#EXT-X-BYTERANGE:50'', ''all.ts''] None))
       = None
   \<and> ranges (snd (fst (snd (segmentsLoop (ex_locals (- 1), ex_stream)
        (scanner_at [''#EXT-X-BYTERANGE:100@0'', ''all.ts'', ''#EXTINF:9.5,'', ''#EXT-X-BYTERANGE:50'', ''all.ts''] None)))))
       = [(''all.ts'', 100, 0), (''all.ts'', 50, 100)]
   \<and> fst (segmentsLoop (ex_locals (- 1), ex_stream)
        (scanner_at [''#EXT-X-BYTERANGE:10@-11'', ''all.ts'', ''#EXTINF:9.5,'', ''#EXT-X-BYTERANGE:50'', ''all.ts''] None))
       = Some (FatalError (InvalidTag ''EXT-X-BYTERANGE'' ''50'' errOffsetFirstSegment) False)"
proof -
  have p: "ParseInt ''100'' = Inr 100" "ParseInt ''0'' = Inr 0" "ParseInt ''50'' = Inr 50"
    "ParseInt ''10'' = Inr 10" "ParseInt ''-11'' = Inr (- 11)"
    by code_simp+
  have m0: "list_all segment_other []" by simp
  have m1: "list_all segment_other [''#EXTINF:9.5,'']" by code_simp
  have u: "is_uri ''all.ts''" by code_simp
  have nt: "Titles (d ex_stream) = []" by code_simp
  have pre: "list_all (\<lambda>l. \<not> is_byterange l) [''#EXTINF:9.5,'']" by code_simp
  have r1: "running 100 0 = 100" and r2: "running 10 (- 11) = - 1" by code_simp+
  have new: "q_sequence (o_queue (outp ex_stream)) < l_sequence (ex_locals (- 1))
      \<and> - (2 ^ 63) \<le> l_sequence (ex_locals (- 1)) \<and> l_sequence (ex_locals (- 1)) < 2 ^ 63 - 1"
    by code_simp
  have old: "ranges ex_stream = []" by code_simp
  note t1 = C4_omitted_offset_needs_running_offset [OF p(1) p(2) p(3) m0 u m1 m0 u nt,
    where pre = "[''#EXTINF:9.5,'']" and post = "[''all.ts'']" and f = None and loc = "ex_locals (- 1)"]
  note t2 = C4_omitted_offset_needs_running_offset [OF p(4) p(5) p(3) m0 u m1 m0 u nt,
    where pre = "[]" and post = "[''all.ts'']" and f = None and loc = "ex_locals (- 1)"]
  from t1 pre have a: "\<exists>e. fst (parseSegments ex_stream
               (scanner_at [''#EXTINF:9.5,'', ''#EXT-X-BYTERANGE:50'', ''all.ts''] None)) = Some e
          \<and> is_fatalError e"
    by auto
  from t1 r1 new old have b: "fst (segmentsLoop (ex_locals (- 1), ex_stream)
        (scanner_at [''#EXT-X-BYTERANGE:100@0'', ''all.ts'', ''#EXTINF:9.5,'', ''#EXT-X-BYTERANGE:50'', ''all.ts''] None))
       = None
   \<and> ranges (snd (fst (snd (segmentsLoop (ex_locals (- 1), ex_stream)
        (scanner_at [''#EXT-X-BYTERANGE:100@0'', ''all.ts'', ''#EXTINF:9.5,'', ''#EXT-X-BYTERANGE:50'', ''all.ts''] None)))))
       = [(''all.ts'', 100, 0), (''all.ts'', 50, 100)]"
    by (simp del: segmentsLoop.simps)
  from t2 r2 have c: "fst (segmentsLoop (ex_locals (- 1), ex_stream)
        (scanner_at [''#EXT-X-BYTERANGE:10@-11'', ''all.ts'', ''#EXTINF:9.5,'', ''#EXT-X-BYTERANGE:50'', ''all.ts''] None))
       = Some (FatalError (InvalidTag ''EXT-X-BYTERANGE'' ''50'' errOffsetFirstSegment) False)"
    by (simp del: segmentsLoop.simps)
  from a b c show ?thesis by blast
qed

theorem C4_counterexample:
  "fst (fetchPlaylist ex_stream (Response 200 ex_range_first None))
     = Some (FatalError (InvalidTag ''EXT-X-BYTERANGE'' ''100'' errOffsetFirstSegment) False)
   \<and> q_c (o_queue (outp (snd (fetchPlaylist ex_stream (Response 200 ex_range_first None))))) = []"
  by code_simp

subsection \<open>The poller and failed fetches\<close>

lemma fetchStart_simps [simp]:
  "p_active (playlist (fetchStart s)) = p_active (playlist s)"
  "p_targetDuration (playlist (fetchStart s)) = p_targetDuration (playlist s)"
  "p_lastDuration (playlist (fetchStart s)) = go_quot (p_targetDuration (playlist s)) 2"
  "d (fetchStart s) = d s"
  by (simp_all add: fetchStart_def)

lemma transient_fetch_result:
  assumes "transient_fetch r"
  shows "\<exists>e. fetchPlaylist s (r_fetch r) = (Some e, fetchStart s) \<and> \<not> is_fatalError e"
proof (cases "r_fetch r")
  case (DoError e)
  with assms show ?thesis by (simp add: transient_fetch_def fetchPlaylist_def Let_def)
next
  case (Response status body f)
  with assms have "status \<noteq> 200" "\<not> is_fatalError (httpResponseStatusError status)"
    by (auto simp: transient_fetch_def httpResponseStatusError_def)
  with Response show ?thesis by (simp add: fetchPlaylist_def Let_def)
qed

lemma pollLoop_step:
  assumes act: "p_active (playlist s)" and ns: "\<not> r_stop r"
      and f: "fetchPlaylist s (r_fetch r) = (Some e, s2)" and nf: "\<not> is_fatalError e"
  shows "pollLoop s sl err (r # rs) =
     (if p_lastDuration (playlist s2) = 0 then (Some (Some e), s2, [sl])
      else (case pollLoop s2 (wrap64 (- r_elapsed r + p_lastDuration (playlist s2))) (Some e) rs of
              (res, s3, sls) \<Rightarrow> (res, s3, sl # sls)))"
  using assms by (simp add: Let_def)

lemma pollLoop_keeps_retrying:
  assumes "list_all transient_fetch rs" and "p_active (playlist s)"
      and "go_quot (p_targetDuration (playlist s)) 2 \<noteq> 0"
  shows "fst (pollLoop s sl err rs) = None \<and> length (snd (snd (pollLoop s sl err rs))) = length rs"
  using assms
proof (induction rs arbitrary: s sl err)
  case Nil
  then show ?case by simp
next
  case (Cons r rs)
  from Cons.prems(1) have tr: "transient_fetch r" and rest: "list_all transient_fetch rs"
    by simp_all
  from tr have ns: "\<not> r_stop r" by (simp add: transient_fetch_def)
  from transient_fetch_result [OF tr, of s]
  obtain e where f: "fetchPlaylist s (r_fetch r) = (Some e, fetchStart s)" and nf: "\<not> is_fatalError e"
    by blast
  have l: "p_lastDuration (playlist (fetchStart s)) \<noteq> 0" using Cons.prems(3) by simp
  have a: "p_active (playlist (fetchStart s))" using Cons.prems(2) by simp
  have t: "go_quot (p_targetDuration (playlist (fetchStart s))) 2 \<noteq> 0" using Cons.prems(3) by simp
  note ih = Cons.IH [OF rest a t, of "wrap64 (- r_elapsed r + p_lastDuration (playlist (fetchStart s)))" "Some e"]
  show ?case
    unfolding pollLoop_step [OF Cons.prems(2) ns f nf]
    using l ih by (simp add: split_beta del: pollLoop.simps)
qed

text \<open>
  Claim C6, amended. A playlist fetch error that is not fatal ends the loop of the poller
  exactly when the reload interval \<open>lastDuration\<close> is zero after the fetch, as it is
  while no target duration is known; otherwise the loop is not aborted: the poller sleeps
  and fetches again. So failed playlist fetches are retried, and without bound: while
  every fetch fails without a fatal error, the target duration is known and nobody
  stops the rendition, the loop is still running after any number of rounds.
\<close>

theorem C6_transient_playlist_errors_are_retried:
  assumes act: "p_active (playlist s)"
  shows "(\<not> r_stop r \<and> fetchPlaylist s (r_fetch r) = (Some e, s2) \<and> \<not> is_fatalError e \<longrightarrow>
            pollLoop s sl err (r # rs) =
              (if p_lastDuration (playlist s2) = 0 then (Some (Some e), s2, [sl])
               else (case pollLoop s2 (wrap64 (- r_elapsed r + p_lastDuration (playlist s2))) (Some e) rs of
                       (res, s3, sls) \<Rightarrow> (res, s3, sl # sls))))
       \<and> (list_all transient_fetch rs \<and> go_quot (p_targetDuration (playlist s)) 2 \<noteq> 0 \<longrightarrow>
            fst (pollLoop s sl err rs) = None
            \<and> length (snd (snd (pollLoop s sl err rs))) = length rs)
       \<and> (transient_fetch r \<and> go_quot (p_targetDuration (playlist s)) 2 = 0 \<longrightarrow>
            (\<exists>e'. pollLoop s sl err (r # rs) = (Some (Some e'), fetchStart s, [sl])))"
proof (intro conjI impI)
  assume "\<not> r_stop r \<and> fetchPlaylist s (r_fetch r) = (Some e, s2) \<and> \<not> is_fatalError e"
  then show "pollLoop s sl err (r # rs) =
              (if p_lastDuration (playlist s2) = 0 then (Some (Some e), s2, [sl])
               else (case pollLoop s2 (wrap64 (- r_elapsed r + p_lastDuration (playlist s2))) (Some e) rs of
                       (res, s3, sls) \<Rightarrow> (res, s3, sl # sls)))"
    using pollLoop_step [OF act, of r e s2 sl err rs] by blast
next
  assume a: "list_all transient_fetch rs \<and> go_quot (p_targetDuration (playlist s)) 2 \<noteq> 0"
  then have "fst (pollLoop s sl err rs) = None \<and> length (snd (snd (pollLoop s sl err rs))) = length rs"
    using pollLoop_keeps_retrying [of rs s sl err] act by blast
  then show "fst (pollLoop s sl err rs) = None"
    and "length (snd (snd (pollLoop s sl err rs))) = length rs"
    by blast+
next
  assume a: "transient_fetch r \<and> go_quot (p_targetDuration (playlist s)) 2 = 0"
  then have ns: "\<not> r_stop r" by (simp add: transient_fetch_def)
  from a transient_fetch_result [of r s]
  obtain e' where f: "fetchPlaylist s (r_fetch r) = (Some e', fetchStart s)" and nf: "\<not> is_fatalError e'"
    by blast
  have "pollLoop s sl err (r # rs) = (Some (Some e'), fetchStart s, [sl])"
    unfolding pollLoop_step [OF act ns f nf] using a by simp
  then show "\<exists>e'. pollLoop s sl err (r # rs) = (Some (Some e'), fetchStart s, [sl])"
    by blast
qed

theorem C6_witness:
  "fst (pollLoop ex_after1 0 None [ex_unavailable, ex_unavailable, ex_unavailable]) = None
   \<and> length (snd (snd (pollLoop ex_after1 0 None [ex_unavailable, ex_unavailable, ex_unavailable]))) = 3
   \<and> pollLoop ex_after1 0 None [ex_unavailable] = (None, fetchStart ex_after1, [0])
   \<and> (\<exists>e'. pollLoop ex_stream 0 None [ex_unavailable, ex_unavailable] = (Some (Some e'), fetchStart ex_stream, [0]))"
proof -
  have a1: "p_active (playlist ex_after1)" and a0: "p_active (playlist ex_stream)"
    by code_simp+
  have tr: "transient_fetch ex_unavailable"
    "list_all transient_fetch [ex_unavailable, ex_unavailable, ex_unavailable]"
    by code_simp+
  have td1: "go_quot (p_targetDuration (playlist ex_after1)) 2 \<noteq> 0"
    and td0: "go_quot (p_targetDuration (playlist ex_stream)) 2 = 0"
    by code_simp+
  have ns: "\<not> r_stop ex_unavailable" by (simp add: ex_unavailable_def)
  have f: "fetchPlaylist ex_after1 (r_fetch ex_unavailable) = (Some (HttpStatus 503), fetchStart ex_after1)"
    by code_simp
  have nf: "\<not> is_fatalError (HttpStatus 503)" by simp
  have ld: "p_lastDuration (playlist (fetchStart ex_after1)) \<noteq> 0" "p_active (playlist (fetchStart ex_after1))"
    by code_simp+
  note t1 = C6_transient_playlist_errors_are_retried [OF a1,
      where sl = 0 and err = None and rs = "[ex_unavailable, ex_unavailable, ex_unavailable]"]
  note t2 = C6_transient_playlist_errors_are_retried [OF a1,
      where r = ex_unavailable and e = "HttpStatus 503" and ?s2.0 = "fetchStart ex_after1"
        and sl = 0 and err = None and rs = "[]"]
  note t0 = C6_transient_playlist_errors_are_retried [OF a0,
      where r = ex_unavailable and sl = 0 and err = None and rs = "[ex_unavailable]"]
  from t1 tr td1 have c1: "fst (pollLoop ex_after1 0 None [ex_unavailable, ex_unavailable, ex_unavailable]) = None
   \<and> length (snd (snd (pollLoop ex_after1 0 None [ex_unavailable, ex_unavailable, ex_unavailable]))) = 3"
    by simp
  from t2 ns f nf ld have c2: "pollLoop ex_after1 0 None [ex_unavailable] = (None, fetchStart ex_after1, [0])"
    by (simp del: pollLoop.simps add: pollLoop.simps(1))
  from t0 tr(1) td0 have c3: "\<exists>e'. pollLoop ex_stream 0 None [ex_unavailable, ex_unavailable]
      = (Some (Some e'), fetchStart ex_stream, [0])"
    by blast
  from c1 c2 c3 show ?thesis by blast
qed

theorem C6_counterexample:
  "fst (playlistLoop ex_after1 None [ex_unavailable, ex_unavailable]) = None
   \<and> snd (snd (playlistLoop ex_after1 None [ex_unavailable, ex_unavailable])) = [0, 4999999999]
   \<and> fst (fetchPlaylist ex_after1 (r_fetch ex_unavailable)) = Some (HttpStatus 503)"
  by code_simp

subsection \<open>The jobs of a master playlist\<close>

lemma names_numbered_Nil [simp]: "names_numbered dm []"
  by (simp add: names_numbered_def)

lemma names_numbered_snoc:
  assumes "names_numbered dm streams" and "name st = numbered dm (Suc (length streams))"
  shows "names_numbered dm (streams @ [st])"
  using assms by (simp add: names_numbered_def)

lemma masterLoop_names:
  assumes "names_numbered dm streams" and "i = int (length streams)"
      and "i + int (length lines) < 2 ^ 63"
      and "masterLoop dm url resolve m i streams lines = (None, out)"
  shows "names_numbered dm out
       \<or> (streams = [] \<and> out = [newStream dm (Name dm) url] \<and> list_ex media_line lines)"
  using assms
proof (induction lines arbitrary: m i streams)
  case Nil
  then show ?case by simp
next
  case (Cons line ls)
  have b: "i + int (length ls) < 2 ^ 63" using Cons.prems(3) by simp
  note ih = Cons.IH [OF Cons.prems(1,2) b]
  show ?case
  proof (cases "line = [] \<or> (hd line = CHR ''#'' \<and> \<not> HasPrefix line tagPrefix) \<or> (hd line \<noteq> CHR ''#'' \<and> \<not> m)")
    case True
    with Cons.prems(4) have "masterLoop dm url resolve m i streams ls = (None, out)"
      by (auto split: if_splits)
    from ih [OF this] show ?thesis by auto
  next
    case False
    show ?thesis
    proof (cases "hd line = CHR ''#''")
      case True
      with False have ne: "line \<noteq> []" and tag: "HasPrefix line tagPrefix" by auto
      show ?thesis
      proof (cases "masterTag dm url m streams line")
        case (Next m')
        with Cons.prems(4) ne True tag have "masterLoop dm url resolve m' i streams ls = (None, out)"
          by simp
        from ih [OF this] show ?thesis by auto
      next
        case (Done streams')
        with Cons.prems(4) ne True tag have o: "out = streams'" by simp
        from Done have "streams = [] \<and> streams' = [newStream dm (Name dm) url]
            \<and> (fst (splitPair (tl line) tagSeparator) \<in> set mediaTags
                 \<or> fst (splitPair (tl line) tagSeparator) \<in> set segmentTags)"
          by (auto simp: masterTag_def split: prod.splits option.splits if_splits)
        with o ne True tag show ?thesis by (simp add: media_line_def)
      next
        case (Failed e)
        with Cons.prems(4) ne True tag show ?thesis by simp
      qed
    next
      case uri: False
      with False have ne: "line \<noteq> []" and m: "m" by auto
      show ?thesis
      proof (cases "resolve url line")
        case (Inl e)
        with Cons.prems(4) ne uri m show ?thesis by simp
      next
        case (Inr u)
        have w: "wrap64 (i + 1) = i + 1"
          using Cons.prems(2,3) by (simp add: wrap64_id)
        let ?st = "newStream dm (Name dm @ ''-'' @ itoa (i + 1)) u"
        have nm: "name ?st = numbered dm (Suc (length streams))"
          using Cons.prems(2) by (simp add: newStream_def numbered_def add.commute)
        have nn: "names_numbered dm (streams @ [?st])"
          using Cons.prems(1) nm by (rule names_numbered_snoc)
        have i1: "i + 1 = int (length (streams @ [?st]))" using Cons.prems(2) by simp
        have b1: "i + 1 + int (length ls) < 2 ^ 63" using Cons.prems(3) by simp
        from Cons.prems(4) ne uri m Inr w
        have "masterLoop dm url resolve False (i + 1) (streams @ [?st]) ls = (None, out)"
          by simp
        from Cons.IH [OF nn i1 b1 this] show ?thesis by auto
      qed
    qed
  qed
qed


lemma masterTag_other:
  assumes "master_other line" and "line \<noteq> []" and "HasPrefix line tagPrefix"
  shows "masterTag dm url m streams line = Next m"
proof -
  obtain k v where kv: "splitPair (tl line) tagSeparator = (k, v)"
    by (cases "splitPair (tl line) tagSeparator")
  from assms kv have k: "k \<noteq> ''EXT-X-STREAM-INF''" "k \<notin> set mediaTags" "k \<notin> set segmentTags"
    and a: "k = ''EXT-X-MEDIA'' \<longrightarrow> parseAttributeList v \<noteq> None"
    by (simp_all add: master_other_def)
  show ?thesis
  proof (cases "k = ''EXT-X-MEDIA''")
    case True
    with a obtain attr where "parseAttributeList v = Some attr" by auto
    with True show ?thesis unfolding masterTag_def kv by simp
  next
    case False
    with k show ?thesis unfolding masterTag_def kv by simp
  qed
qed

lemma masterLoop_other_line:
  assumes "master_other line"
  shows "masterLoop dm url resolve m i streams (line # rest) = masterLoop dm url resolve m i streams rest"
proof (cases "line = []")
  case True
  then show ?thesis by simp
next
  case False
  with assms have hash: "hd line = CHR ''#''" by (simp add: master_other_def)
  show ?thesis
  proof (cases "HasPrefix line tagPrefix")
    case True
    from masterTag_other [OF assms False True] have "masterTag dm url m streams line = Next m" .
    with False hash True show ?thesis by simp
  next
    case np: False
    with False hash show ?thesis by simp
  qed
qed

lemma masterLoop_other:
  "list_all master_other ls \<Longrightarrow>
     masterLoop dm url resolve m i streams (ls @ rest) = masterLoop dm url resolve m i streams rest"
  by (induction ls) (simp_all add: masterLoop_other_line del: masterLoop.simps)

lemma splitPair_stream_inf:
  "splitPair (''EXT-X-STREAM-INF:'' @ v) tagSeparator = (''EXT-X-STREAM-INF'', v)"
  by (simp add: splitPair_def tagSeparator_def)

lemma masterLoop_stream_inf:
  assumes "parseAttributeList attrs = Some attr"
  shows "masterLoop dm url resolve m i streams ((''#EXT-X-STREAM-INF:'' @ attrs) # rest)
           = masterLoop dm url resolve (matchRenditions dm attr \<or> m) i streams rest"
proof -
  let ?line = "''#EXT-X-STREAM-INF:'' @ attrs"
  have k: "splitPair (tl ?line) tagSeparator = (''EXT-X-STREAM-INF'', attrs)"
    using splitPair_stream_inf [of attrs] by simp
  have t: "masterTag dm url m streams ?line = Next (matchRenditions dm attr \<or> m)"
    unfolding masterTag_def k using assms by simp
  have p: "HasPrefix ?line tagPrefix" "?line \<noteq> []" "hd ?line = CHR ''#''"
    by (simp_all add: HasPrefix_def tagPrefix_def)
  show ?thesis
    unfolding masterLoop.simps using p t by simp
qed

lemma masterLoop_uri:
  assumes "is_uri u"
  shows "masterLoop dm url resolve m i streams (u # rest) =
     (if m then
        (case resolve url u of
           Inl e \<Rightarrow> (Some e, streams)
         | Inr x \<Rightarrow> masterLoop dm url resolve False (wrap64 (i + 1))
                      (streams @ [newStream dm (Name dm @ ''-'' @ itoa (wrap64 (i + 1))) x]) rest)
      else masterLoop dm url resolve m i streams rest)"
  using assms by (simp add: is_uri_def)

text \<open>The loop of \<open>parseMaster\<close> over one variant, and over the variants of a playlist.\<close>

lemma masterLoop_variant:
  assumes wf: "variant_wf url resolve x" and i: "int i < 2 ^ 63 - 1"
  shows "masterLoop dm url resolve False (int i) streams (variant_lines x @ rest) =
     (if selected dm x
      then masterLoop dm url resolve False (int (Suc i))
             (streams @ [newStream dm (numbered dm (Suc i)) (the_url (resolve url (variant_uri x)))]) rest
      else masterLoop dm url resolve False (int i) streams rest)"
proof -
  obtain pre attrs mid uri where x: "x = (pre, attrs, mid, uri)" by (cases x)
  from wf x have pre: "list_all master_other pre" and mid: "list_all master_other mid"
    and u: "is_uri uri"
    by (simp_all add: variant_wf_def)
  from wf x obtain attr where attr: "parseAttributeList attrs = Some attr"
    by (auto simp: variant_wf_def)
  from wf x obtain r where r: "resolve url uri = Inr r"
    by (auto simp: variant_wf_def split: sum.splits)
  have w: "wrap64 (int i + 1) = int (Suc i)"
    using i by (simp add: wrap64_id)
  have sel: "selected dm x = matchRenditions dm attr"
    by (simp add: selected_def x attr)
  have "masterLoop dm url resolve False (int i) streams (variant_lines x @ rest)
      = masterLoop dm url resolve False (int i) streams ((''#EXT-X-STREAM-INF:'' @ attrs) # mid @ uri # rest)"
    by (simp add: x variant_lines_def masterLoop_other [OF pre] del: masterLoop.simps)
  also have "\<dots> = masterLoop dm url resolve (matchRenditions dm attr) (int i) streams (mid @ uri # rest)"
    unfolding masterLoop_stream_inf [OF attr] by simp
  also have "\<dots> = masterLoop dm url resolve (matchRenditions dm attr) (int i) streams (uri # rest)"
    by (rule masterLoop_other [OF mid])
  also have "\<dots> = (if selected dm x
      then masterLoop dm url resolve False (int (Suc i))
             (streams @ [newStream dm (numbered dm (Suc i)) (the_url (resolve url (variant_uri x)))]) rest
      else masterLoop dm url resolve False (int i) streams rest)"
    unfolding masterLoop_uri [OF u] sel w
    by (simp add: r the_url_def variant_uri_def x numbered_def del: masterLoop.simps)
  finally show ?thesis .
qed

lemma masterLoop_variants:
  assumes "list_all (variant_wf url resolve) xs" and "int i + int (length xs) < 2 ^ 63"
  shows "masterLoop dm url resolve False (int i) streams (concat (map variant_lines xs) @ rest) =
     masterLoop dm url resolve False (int (i + length (filter (selected dm) xs)))
       (streams @ expected_jobs dm url resolve i (filter (selected dm) xs)) rest"
  using assms
proof (induction xs arbitrary: i streams)
  case Nil
  then show ?case by simp
next
  case (Cons x xs)
  from Cons.prems have wf: "variant_wf url resolve x" and wfs: "list_all (variant_wf url resolve) xs"
    by simp_all
  have i1: "int i < 2 ^ 63 - 1" using Cons.prems(2) by simp
  have b0: "int i + int (length xs) < 2 ^ 63" using Cons.prems(2) by simp
  have b1: "int (Suc i) + int (length xs) < 2 ^ 63" using Cons.prems(2) by simp
  have split: "concat (map variant_lines (x # xs)) @ rest
      = variant_lines x @ (concat (map variant_lines xs) @ rest)"
    by simp
  show ?case
  proof (cases "selected dm x")
    case True
    show ?thesis
      unfolding split masterLoop_variant [OF wf i1]
      using True Cons.IH [OF wfs b1] by simp
  next
    case False
    show ?thesis
      unfolding split masterLoop_variant [OF wf i1]
      using False Cons.IH [OF wfs b0] by simp
  qed
qed

lemma expected_jobs_names:
  "map name (expected_jobs dm url resolve i xs) = map (numbered dm) [Suc i..<Suc (i + length xs)]"
proof (induction xs arbitrary: i)
  case Nil
  then show ?case by simp
next
  case (Cons x xs)
  have "[Suc i..<Suc (i + length (x # xs))] = Suc i # [Suc (Suc i)..<Suc (Suc i + length xs)]"
    by (subst upt_conv_Cons) simp_all
  then show ?case using Cons.IH [of "Suc i"] by (simp add: newStream_def)
qed

lemma selected_all:
  assumes "Groups dm = []" and "list_all (variant_wf url resolve) xs"
  shows "filter (selected dm) xs = xs"
proof -
  have "selected dm x" if "variant_wf url resolve x" for x
    using that assms(1)
    by (cases x) (auto simp: selected_def variant_wf_def matchRenditions_def)
  with assms(2) show ?thesis by (simp add: list_all_iff)
qed

lemma masterLoop_media_line:
  assumes "media_line l"
  shows "masterLoop dm url resolve m i [] (l # rest) = (None, [newStream dm (Name dm) url])"
proof -
  obtain k v where kv: "splitPair (tl l) tagSeparator = (k, v)" by (cases "splitPair (tl l) tagSeparator")
  from assms kv have ne: "l \<noteq> []" and hash: "hd l = CHR ''#''" and p: "HasPrefix l tagPrefix"
    and k: "k \<in> set mediaTags \<or> k \<in> set segmentTags"
    by (simp_all add: media_line_def)
  from k have nk: "k \<noteq> ''EXT-X-MEDIA''" "k \<noteq> ''EXT-X-STREAM-INF''"
    by (auto simp: mediaTags_def segmentTags_def)
  have "masterTag dm url m [] l = Done [newStream dm (Name dm) url]"
    unfolding masterTag_def kv using k nk by simp
  with ne hash p show ?thesis by simp
qed

lemma expected_jobs_urls:
  "map (\<lambda>j. p_url (playlist j)) (expected_jobs dm url resolve i xs)
     = map (\<lambda>x. the_url (resolve url (variant_uri x))) xs"
  by (induction xs arbitrary: i) (simp_all add: newStream_def)

lemma expected_jobs_length [simp]: "length (expected_jobs dm url resolve i xs) = length xs"
  by (induction xs arbitrary: i) simp_all

text \<open>
  Claim C9, amended. For a master playlist made of variants (an \<open>EXT-X-STREAM-INF\<close> tag
  and its URI line each, other lines around them), \<open>parseMaster\<close> produces one job for every
  variant that the group filter selects, in manifest order: the job at position \<open>k\<close> is
  named \<open>base-k\<close>, counting from 1, and fetches the URI of its variant resolved against
  the URL of the master playlist. This holds also when exactly one variant is selected
  (its job is \<open>base-1\<close>), and without a group filter every variant is selected. The
  configured base name is reused unchanged only for the single job produced when the
  manifest has a tag of a media playlist before any variant. Whenever \<open>parseMaster\<close>
  succeeds, its jobs are of one of these two kinds.
\<close>

theorem C9_rendition_job_names:
  fixes dm :: dumper and url :: string and resolve :: "string \<Rightarrow> string \<Rightarrow> error + string"
    and xs :: "variant list" and pre post trailing :: "string list"
  defines "chosen \<equiv> filter (selected dm) xs"
  defines "jobs \<equiv> expected_jobs dm url resolve 0 chosen"
  assumes wf: "list_all (variant_wf url resolve) xs"
      and tr: "list_all master_other trailing"
      and n: "int (length xs) < 2 ^ 63"
  shows "parseMaster dm [] url resolve
             (NewScanner (''#EXTM3U'' # concat (map variant_lines xs) @ trailing) f) = (None, jobs)
       \<and> map name jobs = map (numbered dm) [1..<Suc (length chosen)]
       \<and> map (\<lambda>j. p_url (playlist j)) jobs = map (\<lambda>x. the_url (resolve url (variant_uri x))) chosen
       \<and> (Groups dm = [] \<longrightarrow> chosen = xs)
       \<and> (list_all master_other pre \<and> media_line l \<longrightarrow>
            parseMaster dm [] url resolve (NewScanner (''#EXTM3U'' # pre @ l # post) f)
              = (None, [newStream dm (Name dm) url]))
       \<and> (parseMaster dm [] url resolve sc = (None, streams) \<and> int (length (pending sc)) < 2 ^ 63 \<longrightarrow>
            map name streams = map (numbered dm) [1..<Suc (length streams)]
            \<or> (streams = [newStream dm (Name dm) url] \<and> list_ex media_line (pending sc)))"
proof (intro conjI impI)
  have b: "int 0 + int (length xs) < 2 ^ 63" using n by simp
  have "masterLoop dm url resolve False 0 [] (concat (map variant_lines xs) @ trailing)
      = masterLoop dm url resolve False (int (0 + length chosen)) ([] @ jobs) trailing"
    using masterLoop_variants [OF wf b, of dm "[]" trailing] by (simp add: chosen_def jobs_def)
  also have "\<dots> = masterLoop dm url resolve False (int (0 + length chosen)) ([] @ jobs) ([] @ [])"
    using masterLoop_other [OF tr, of dm url resolve False "int (0 + length chosen)" "[] @ jobs" "[]"]
    by simp
  also have "\<dots> = (None, jobs)" by simp
  finally show "parseMaster dm [] url resolve
             (NewScanner (''#EXTM3U'' # concat (map variant_lines xs) @ trailing) f) = (None, jobs)"
    by (simp add: parseMaster_def NewScanner_def)
  show "map name jobs = map (numbered dm) [1..<Suc (length chosen)]"
    unfolding jobs_def using expected_jobs_names [of dm url resolve 0 chosen] by simp
  show "map (\<lambda>j. p_url (playlist j)) jobs = map (\<lambda>x. the_url (resolve url (variant_uri x))) chosen"
    unfolding jobs_def by (rule expected_jobs_urls)
  show "chosen = xs" if "Groups dm = []"
    unfolding chosen_def using that wf by (rule selected_all)
next
  assume a: "list_all master_other pre \<and> media_line l"
  then have p: "list_all master_other pre" and m: "media_line l" by simp_all
  have "masterLoop dm url resolve False 0 [] (pre @ l # post) = (None, [newStream dm (Name dm) url])"
    unfolding masterLoop_other [OF p] using m by (rule masterLoop_media_line)
  then show "parseMaster dm [] url resolve (NewScanner (''#EXTM3U'' # pre @ l # post) f)
              = (None, [newStream dm (Name dm) url])"
    by (simp add: parseMaster_def NewScanner_def)
next
  assume a: "parseMaster dm [] url resolve sc = (None, streams) \<and> int (length (pending sc)) < 2 ^ 63"
  obtain t ls g e where sc: "sc = Scanner t ls g e" by (cases sc)
  show "map name streams = map (numbered dm) [1..<Suc (length streams)]
            \<or> (streams = [newStream dm (Name dm) url] \<and> list_ex media_line (pending sc))"
  proof (cases ls)
    case Nil
    with a sc show ?thesis by (simp add: parseMaster_def)
  next
    case (Cons l0 rest)
    with a sc have "masterLoop dm url resolve False 0 [] rest = (None, streams)"
      by (simp add: parseMaster_def split: if_splits)
    moreover have "0 + int (length rest) < 2 ^ 63" using a sc Cons by simp
    ultimately have "names_numbered dm streams
        \<or> ([] = ([]::stream list) \<and> streams = [newStream dm (Name dm) url] \<and> list_ex media_line rest)"
      using masterLoop_names [of dm "[]" 0 rest url resolve False streams] by simp
    then show ?thesis using sc Cons by (auto simp: names_numbered_def)
  qed
qed

theorem C9_witness:
  "fst (parseMaster ex_dumper [] ''http://host/master.m3u8'' ex_resolve (NewScanner ex_master_two None)) = None
   \<and> map name (snd (parseMaster ex_dumper [] ''http://host/master.m3u8'' ex_resolve (NewScanner ex_master_two None)))
       = [''base-1'', ''base-2'']
   \<and> map (\<lambda>j. p_url (playlist j))
        (snd (parseMaster ex_dumper [] ''http://host/master.m3u8'' ex_resolve (NewScanner ex_master_two None)))
       = [''http://host/low.m3u8'', ''http://host/mid.m3u8'']
   \<and> map name (snd (parseMaster ex_dumper [] ''http://host/live.m3u8'' ex_resolve (NewScanner ex_reload1 None)))
       = [''base'']
   \<and> map name (snd (parseMaster ex_dumper [] ''http://host/master.m3u8'' ex_resolve (NewScanner ex_master_two None)))
       = map (numbered ex_dumper) [1..<Suc 2]"
proof -
  let ?U = "''http://host/master.m3u8''"
  have wf: "list_all (variant_wf ?U ex_resolve) ex_variants" by code_simp
  have tr: "list_all master_other []" by simp
  have n: "int (length ex_variants) < 2 ^ 63" by code_simp
  have g: "Groups ex_dumper = []" by code_simp
  have lines: "''#EXTM3U'' # concat (map variant_lines ex_variants) @ [] = ex_master_two"
    by code_simp
  have names: "map (numbered ex_dumper) [1..<Suc (length ex_variants)] = [''base-1'', ''base-2'']"
    by code_simp
  have urls: "map (\<lambda>x. the_url (ex_resolve ?U (variant_uri x))) ex_variants
      = [''http://host/low.m3u8'', ''http://host/mid.m3u8'']"
    by code_simp
  note t = C9_rendition_job_names [OF wf tr n, where dm = ex_dumper and f = None
    and sc = "NewScanner ex_master_two None"
    and streams = "expected_jobs ex_dumper ?U ex_resolve 0 ex_variants", unfolded lines]
  from t g have ch: "filter (selected ex_dumper) ex_variants = ex_variants" by blast
  from t have r: "parseMaster ex_dumper [] ?U ex_resolve (NewScanner ex_master_two None)
      = (None, expected_jobs ex_dumper ?U ex_resolve 0 ex_variants)"
    and nm: "map name (expected_jobs ex_dumper ?U ex_resolve 0 ex_variants)
      = map (numbered ex_dumper) [1..<Suc (length ex_variants)]"
    and ur: "map (\<lambda>j. p_url (playlist j)) (expected_jobs ex_dumper ?U ex_resolve 0 ex_variants)
      = map (\<lambda>x. the_url (ex_resolve ?U (variant_uri x))) ex_variants"
    unfolding ch by blast+
  have a: "fst (parseMaster ex_dumper [] ?U ex_resolve (NewScanner ex_master_two None)) = None
   \<and> map name (snd (parseMaster ex_dumper [] ?U ex_resolve (NewScanner ex_master_two None)))
       = [''base-1'', ''base-2'']
   \<and> map (\<lambda>j. p_url (playlist j))
        (snd (parseMaster ex_dumper [] ?U ex_resolve (NewScanner ex_master_two None)))
       = [''http://host/low.m3u8'', ''http://host/mid.m3u8'']"
    unfolding r fst_conv snd_conv nm ur names urls by simp
  let ?V = "''http://host/live.m3u8''"
  have wf0: "list_all (variant_wf ?V ex_resolve) []" by simp
  have n0: "int (length ([]::variant list)) < 2 ^ 63" by simp
  have pre: "list_all master_other [''#EXT-X-VERSION:3''] \<and> media_line ''#EXT-X-TARGETDURATION:10''"
    by code_simp
  have l2: "''#EXTM3U'' # [''#EXT-X-VERSION:3''] @ ''#EXT-X-TARGETDURATION:10''
      # [''#EXT-X-MEDIA-SEQUENCE:7'', ''#EXTINF:9.5,'', ''a7.ts'', ''#EXTINF:9.5,'', ''a8.ts''] = ex_reload1"
    by (simp add: ex_reload1_def)
  note t2 = C9_rendition_job_names [OF wf0 tr n0, where dm = ex_dumper and f = None
    and pre = "[''#EXT-X-VERSION:3'']" and l = "''#EXT-X-TARGETDURATION:10''"
    and post = "[''#EXT-X-MEDIA-SEQUENCE:7'', ''#EXTINF:9.5,'', ''a7.ts'', ''#EXTINF:9.5,'', ''a8.ts'']",
    unfolded l2]
  from t2 pre have "parseMaster ex_dumper [] ?V ex_resolve (NewScanner ex_reload1 None)
      = (None, [newStream ex_dumper (Name ex_dumper) ?V])"
    by blast
  then have b: "map name (snd (parseMaster ex_dumper [] ?V ex_resolve (NewScanner ex_reload1 None))) = [''base'']"
    by (simp add: newStream_def ex_dumper_def)
  have bound: "int (length (pending (NewScanner ex_master_two None))) < 2 ^ 63" by code_simp
  have nomedia: "\<not> list_ex media_line (pending (NewScanner ex_master_two None))" by code_simp
  have len: "length (expected_jobs ex_dumper ?U ex_resolve 0 ex_variants) = 2" by code_simp
  from t r bound nomedia
  have "map name (expected_jobs ex_dumper ?U ex_resolve 0 ex_variants)
      = map (numbered ex_dumper) [1..<Suc (length (expected_jobs ex_dumper ?U ex_resolve 0 ex_variants))]"
    by blast
  then have c: "map name (snd (parseMaster ex_dumper [] ?U ex_resolve (NewScanner ex_master_two None)))
       = map (numbered ex_dumper) [1..<Suc 2]"
    unfolding r snd_conv len .
  from a b c show ?thesis by blast
qed

theorem C9_counterexample:
  "map name (snd (parseMaster ex_dumper [] ''http://host/master.m3u8'' ex_resolve (NewScanner ex_master_one None)))
     = [''base-1'']
   \<and> Name ex_dumper = ''base''
   \<and> fst (parseMaster ex_dumper [] ''http://host/master.m3u8'' ex_resolve (NewScanner ex_master_one None)) = None"
  by code_simp

subsection \<open>The end of a rendition\<close>

text \<open>
  Claim C10, amended. When the download worker has finished, whatever it returned, and
  the manifest writer exists, \<open>dump\<close> writes the line \<open>#EXT-X-ENDLIST\<close> to the writer and
  flushes it: with a writer free of errors and a file that takes the bytes the manifest
  then ends with that line. With a writer that carries an earlier write error nothing
  is written and the error is returned; without a writer nothing is written either.
\<close>

theorem C10_endlist_written_when_writer_works:
  "(manifest_open (playlist s) w pf \<longrightarrow>
      dumpFinish s err =
        (p_err (playlist s),
         s\<lparr>playlist := (playlist s)\<lparr>p_writer := Some (w\<lparr>w_buf := []\<rparr>),
              p_file := Some (pf\<lparr>f_data := f_data pf @ w_buf w @ ''#EXT-X-ENDLIST'' @ [NL],
                                  f_pos := length (f_data pf @ w_buf w @ ''#EXT-X-ENDLIST'' @ [NL])\<rparr>)\<rparr>\<rparr>))
   \<and> (p_writer (playlist s) = Some w \<and> w_err w = Some e \<longrightarrow> dumpFinish s err = (Some e, s))
   \<and> (p_writer (playlist s) = None \<longrightarrow>
        dumpFinish s err = ((if err = None then p_err (playlist s) else err), s))"
proof (intro conjI impI)
  assume m: "manifest_open (playlist s) w pf"
  then have w: "p_writer (playlist s) = Some w" "w_err w = None"
    and pf: "p_file (playlist s) = Some pf" "f_room pf = None" "f_pos pf = length (f_data pf)"
    by (simp_all add: manifest_open_def)
  have wl: "pl_writeLine (playlist s) ''#EXT-X-ENDLIST''
      = (None, (playlist s)\<lparr>p_writer := Some (w\<lparr>w_buf := w_buf w @ ''#EXT-X-ENDLIST'' @ [NL]\<rparr>)\<rparr>)"
    using w by (simp add: pl_writeLine_ok)
  show "dumpFinish s err =
        (p_err (playlist s),
         s\<lparr>playlist := (playlist s)\<lparr>p_writer := Some (w\<lparr>w_buf := []\<rparr>),
              p_file := Some (pf\<lparr>f_data := f_data pf @ w_buf w @ ''#EXT-X-ENDLIST'' @ [NL],
                                  f_pos := length (f_data pf @ w_buf w @ ''#EXT-X-ENDLIST'' @ [NL])\<rparr>)\<rparr>\<rparr>)"
    unfolding dumpFinish_def wl
    using w pf
    by (simp add: deferFlush_def flush_def Flush_def fatal_def file_write_def write_at_def)
next
  assume a: "p_writer (playlist s) = Some w \<and> w_err w = Some e"
  then have wl: "pl_writeLine (playlist s) ''#EXT-X-ENDLIST'' = (Some e, playlist s)"
    by (simp add: pl_writeLine_def writeLine_def WriteString_def)
  show "dumpFinish s err = (Some e, s)"
    unfolding dumpFinish_def wl using a
    by (simp add: deferFlush_def flush_def Flush_def)
next
  assume "p_writer (playlist s) = None"
  then show "dumpFinish s err = ((if err = None then p_err (playlist s) else err), s)"
    by (simp add: dumpFinish_def)
qed


theorem C10_witness:
  "map_option f_data (p_file (playlist (snd (dumpFinish ex_after1 (Some (FatalError (HttpStatus 404) False))))))
     = Some (ex_preamble @ ''#EXT-X-ENDLIST'' @ [NL])
   \<and> dumpFinish ex_stuck None = (Some (IOError ''no space left on device''), ex_stuck)
   \<and> dumpFinish ex_stream None = (None, ex_stream)"
proof -
  let ?w = "the (p_writer (playlist ex_after1))"
  let ?pf = "the (p_file (playlist ex_after1))"
  have m: "manifest_open (playlist ex_after1) ?w ?pf" by code_simp
  have v: "f_data ?pf @ w_buf ?w @ ''#EXT-X-ENDLIST'' @ [NL] = ex_preamble @ ''#EXT-X-ENDLIST'' @ [NL]"
    by code_simp
  have st: "p_writer (playlist ex_stuck) = Some \<lparr>w_buf = [], w_err = Some (IOError ''no space left on device'')\<rparr>
      \<and> w_err \<lparr>w_buf = [], w_err = Some (IOError ''no space left on device'')\<rparr> = Some (IOError ''no space left on device'')"
    by (simp add: ex_stuck_def)
  have nw: "p_writer (playlist ex_stream) = None" "p_err (playlist ex_stream) = None" by code_simp+
  note t1 = C10_endlist_written_when_writer_works [of ex_after1 ?w ?pf "Some (FatalError (HttpStatus 404) False)"]
  note t2 = C10_endlist_written_when_writer_works [of ex_stuck _ _ None]
  note t3 = C10_endlist_written_when_writer_works [of ex_stream _ _ None]
  from t1 m have "dumpFinish ex_after1 (Some (FatalError (HttpStatus 404) False)) =
        (p_err (playlist ex_after1),
         ex_after1\<lparr>playlist := (playlist ex_after1)\<lparr>p_writer := Some (?w\<lparr>w_buf := []\<rparr>),
              p_file := Some (?pf\<lparr>f_data := f_data ?pf @ w_buf ?w @ ''#EXT-X-ENDLIST'' @ [NL],
                                  f_pos := length (f_data ?pf @ w_buf ?w @ ''#EXT-X-ENDLIST'' @ [NL])\<rparr>)\<rparr>\<rparr>)"
    by blast
  then have a: "map_option f_data (p_file (playlist (snd (dumpFinish ex_after1 (Some (FatalError (HttpStatus 404) False))))))
     = Some (ex_preamble @ ''#EXT-X-ENDLIST'' @ [NL])"
    unfolding v by simp
  from t2 st have b: "dumpFinish ex_stuck None = (Some (IOError ''no space left on device''), ex_stuck)"
    by blast
  from t3 nw have c: "dumpFinish ex_stream None = (None, ex_stream)"
    by simp
  from a b c show ?thesis by blast
qed

theorem C10_counterexample:
  "fst (dump ex_new ex_run_full) = Some (Some (IOError ''no space left on device''))
   \<and> p_writer (playlist (snd (dump ex_new ex_run_full))) \<noteq> None
   \<and> map_option f_data (p_file (playlist (snd (dump ex_new ex_run_full))))
       = Some (ex_preamble @ ''#EXTINF:9.5,'' @ [NL] @ ''#EXT-X-BYTERA'')"
  by code_simp

subsection \<open>Retried downloads\<close>

lemma write_at_absorb:
  assumes "length j \<le> length B"
  shows "write_at pos (write_at pos x j) B = write_at pos x B"
proof -
  let ?P = "take pos x @ replicate (pos - length x) (CHR 0x00)"
  have lp: "length ?P = pos" by simp
  have y: "write_at pos x j = ?P @ j @ drop (pos + length j) x" by (simp add: write_at_def)
  have t: "take pos (?P @ j @ drop (pos + length j) x) = ?P" using lp by simp
  have ly: "pos \<le> length (?P @ j @ drop (pos + length j) x)" using lp by simp
  have dr: "drop (pos + length B) (?P @ j @ drop (pos + length j) x) = drop (pos + length B) x"
    using lp assms by (simp add: add.commute)
  have "write_at pos (?P @ j @ drop (pos + length j) x) B = ?P @ B @ drop (pos + length B) x"
    unfolding write_at_def t dr using ly by simp
  then show ?thesis unfolding y by (simp add: write_at_def)
qed

lemma transfer_ok:
  assumes copy: "a_copy a = None"
      and m: "manifest_open (playlist s) w pf"
  shows "transfer s seg a body fl =
     (None,
      s\<lparr>outp := (outp s)\<lparr>o_offset := wrap64 (o_offset (outp s) + int (length body)),
                           o_sequence := seg_sequence seg\<rparr>,
        playlist := (playlist s)\<lparr>p_writer := Some (w\<lparr>w_buf := []\<rparr>),
          p_file := Some (file_write pf (w_buf w @
             manifest_entry (SingleFile (d s)) (path_Base (f_name fl))
               (o_sequence (outp s), seg, body, o_offset (outp s))))\<rparr>\<rparr>,
      file_write fl body)"
proof -
  let ?s1 = "s\<lparr>outp := (outp s)\<lparr>o_offset := wrap64 (o_offset (outp s) + int (length body))\<rparr>\<rparr>"
  from m have w: "p_writer (playlist ?s1) = Some w" "w_err w = None"
    and pf: "p_file (playlist s) = Some pf" "f_room pf = None"
    by (simp_all add: manifest_open_def)
  note cm = checkMissingSegments_ok [OF w, of seg]
  show ?thesis
    unfolding transfer_def copy Let_def option.case
    apply (simp only: cm prod.case option.case)
    apply (simp add: pl_WriteString_def WriteString_def pl_writeLine_def writeLine_def path_Base_nonempty
        w deferFlush_def flush_def Flush_def pf fatal_def file_write_def manifest_entry_def)
    done
qed

lemma transfer_ok_fst:
  "a_copy a = None \<Longrightarrow> manifest_open (playlist s) w pf \<Longrightarrow> fst (transfer s seg a body fl) = None"
  by (simp add: transfer_ok)

lemma setTimeout_manifest [simp]:
  "manifest_open (playlist (setTimeout s seg)) w pf = manifest_open (playlist s) w pf"
  by simp

lemma transient_cases:
  assumes tr: "fails_transiently s req seg a" and sink: "sink_consistent s"
      and m: "manifest_open (playlist s) w pf"
  obtains
    (url) e where "a_url a = Inl e" "\<not> is_fatalError e"
  | (early) u host e where "a_url a = Inr (u, host)" "\<not> is_fatalError e"
      "a_resp a = Inl e \<or> (\<exists>status body. a_resp a = Inr (status, body) \<and> status \<noteq> expectedStatus seg
          \<and> e = httpResponseStatusError status)
        \<or> (\<exists>body. a_resp a = Inr (expectedStatus seg, body) \<and> o_file (outp s) = None \<and> a_create a = Some e)"
  | (single) u host body k e f where "a_url a = Inr (u, host)" "a_resp a = Inr (expectedStatus seg, body)"
      "a_copy a = Some (k, e)" "\<not> is_fatalError e" "o_file (outp s) = Some f" "SingleFile (d s)"
      "a_seek a = None" "0 \<le> o_offset (outp s)"
  | (multi) u host body k e where "a_url a = Inr (u, host)" "a_resp a = Inr (expectedStatus seg, body)"
      "a_copy a = Some (k, e)" "\<not> is_fatalError e" "o_file (outp s) = None" "\<not> SingleFile (d s)"
      "a_create a = None"
proof (cases "a_url a")
  case (Inl e)
  with tr have "\<not> is_fatalError e"
    by (simp add: fails_transiently_def downloadSegment_def)
  with Inl show ?thesis by (rule url)
next
  case (Inr x)
  obtain u host where x: "x = (u, host)" by (cases x)
  note u = Inr [unfolded x]
  show ?thesis
  proof (cases "a_resp a")
    case (Inl e)
    with tr u have "\<not> is_fatalError e"
      by (simp add: fails_transiently_def downloadSegment_def Let_def)
    with u Inl show ?thesis by (auto intro: early)
  next
    case r: (Inr y)
    obtain status body where y: "y = (status, body)" by (cases y)
    note resp = r [unfolded y]
    show ?thesis
    proof (cases "status = expectedStatus seg")
      case False
      with tr u resp have "\<not> is_fatalError (httpResponseStatusError status)"
        by (simp add: fails_transiently_def downloadSegment_def Let_def)
      with u resp False show ?thesis by (auto intro: early)
    next
      case True
      note resp' = resp [unfolded True]
      show ?thesis
      proof (cases "o_file (outp s)")
        case None
        then have nsf: "\<not> SingleFile (d s)" using sink by (simp add: sink_consistent_def)
        show ?thesis
        proof (cases "a_create a")
          case (Some e)
          with tr u resp' None have "\<not> is_fatalError e"
            by (simp add: fails_transiently_def downloadSegment_def Let_def createFileWriteOnly_def)
          with u resp' None Some show ?thesis by (auto intro: early)
        next
          case cn: None
          show ?thesis
          proof (cases "a_copy a")
            case cp: None
            let ?fl = "\<lparr>f_name = name s @ ''-'' @ itoa (seg_sequence seg) @ ''.ts'', f_data = [], f_pos = 0, f_room = None\<rparr>"
            have "fst (transfer (setTimeout s seg) seg a body ?fl) = None"
              using cp m by (simp add: transfer_ok_fst)
            with tr u resp' None cn have False
              by (simp add: fails_transiently_def downloadSegment_def Let_def createFileWriteOnly_def
                    split_beta)
            then show ?thesis ..
          next
            case (Some ke)
            obtain k e where ke: "ke = (k, e)" by (cases ke)
            note cp = Some [unfolded ke]
            let ?fl = "\<lparr>f_name = name s @ ''-'' @ itoa (seg_sequence seg) @ ''.ts'', f_data = [], f_pos = 0, f_room = None\<rparr>"
            have "transfer (setTimeout s seg) seg a body ?fl = (Some e, setTimeout s seg, file_write ?fl (take k body))"
              using transfer_copy_fails(4) [OF cp, of "setTimeout s seg"] nsf by simp
            with tr u resp' None cn have "\<not> is_fatalError e"
              by (simp add: fails_transiently_def downloadSegment_def Let_def createFileWriteOnly_def)
            with u resp' cp None nsf cn show ?thesis by (auto intro: multi)
          qed
        qed
      next
        case (Some f)
        then have sf: "SingleFile (d s)" using sink by (simp add: sink_consistent_def)
        show ?thesis
        proof (cases "a_copy a")
          case cp: None
          have "fst (transfer (setTimeout s seg) seg a body f) = None"
            using cp m by (simp add: transfer_ok_fst)
          with tr u resp' Some have False
            by (simp add: fails_transiently_def downloadSegment_def Let_def split_beta)
          then show ?thesis ..
        next
          case c: (Some ke)
          obtain k e where ke: "ke = (k, e)" by (cases ke)
          note cp = c [unfolded ke]
          show ?thesis
          proof (cases "Seek (file_write f (take k body)) (o_offset (outp s)) (a_seek a)")
            case (Inl e2)
            have "transfer (setTimeout s seg) seg a body f
                = (Some (FatalError e False), setTimeout s seg, file_write f (take k body))"
              using transfer_copy_fails(3) [OF cp, of "setTimeout s seg" f body e2] sf Inl by simp
            with tr u resp' Some have False
              by (simp add: fails_transiently_def downloadSegment_def Let_def)
            then show ?thesis ..
          next
            case (Inr f2)
            have "transfer (setTimeout s seg) seg a body f = (Some e, setTimeout s seg, f2)"
              using transfer_copy_fails(2) [OF cp, of "setTimeout s seg" f body f2] sf Inr by simp
            with tr u resp' Some have nf: "\<not> is_fatalError e"
              by (simp add: fails_transiently_def downloadSegment_def Let_def)
            from Inr have "a_seek a = None" "0 \<le> o_offset (outp s)"
              by (auto simp: Seek_def split: option.splits if_splits)
            with u resp' cp nf Some sf show ?thesis by (auto intro: single)
          qed
        qed
      qed
    qed
  qed
qed

end
